theory Spec2Isabelle
  imports Complex_Main
begin

section \<open>Numbers, waveforms and errors\<close>

text \<open>
  The program is \<^verbatim>\<open>src/main.py\<close>. Python floats (seconds, ratios) are modelled as exact
  rationals: the rounding of IEEE doubles is not part of this model, and no theorem of a
  claim rests on a product being a whole number; a sample count is always stated as the
  code's own \<^verbatim>\<open>int(...)\<close> expression. Python integers are
  \<open>int\<close>. A waveform (a one-dimensional numpy array of float32 samples) is the list of
  its samples; only its length matters to the synchronisation logic.
\<close>

type_synonym sample = rat
type_synonym waveform = "sample list"

text \<open>The exceptions that the modelled code lets escape.\<close>

datatype error = ZeroDivisionError | ValueError | UnboundLocalError

text \<open>Module constants (lines 81-85).\<close>

definition SAMPLE_RATE :: nat where
  "SAMPLE_RATE = 24000"

definition OVERLAP_THRESHOLD :: rat where
  "OVERLAP_THRESHOLD = 1 / 100"

definition MIN_SEGMENT_DURATION :: rat where
  "MIN_SEGMENT_DURATION = 5 / 100"

definition FINAL_PADDING_THRESHOLD :: rat where
  "FINAL_PADDING_THRESHOLD = 1 / 100"

definition EXCESS_AUDIO_WARNING_THRESHOLD :: rat where
  "EXCESS_AUDIO_WARNING_THRESHOLD = 1"

text \<open>Python's \<^verbatim>\<open>int(x)\<close> on a float: truncation towards zero.\<close>

definition py_int :: "rat \<Rightarrow> int" where
  "py_int x = (if 0 \<le> x then \<lfloor>x\<rfloor> else \<lceil>x\<rceil>)"

text \<open>\<^verbatim>\<open>np.zeros(n, dtype=np.float32)\<close>: a negative dimension raises \<^verbatim>\<open>ValueError\<close>.\<close>

definition zeros :: "nat \<Rightarrow> waveform" where
  "zeros n = replicate n 0"

definition np_zeros :: "int \<Rightarrow> error + waveform" where
  "np_zeros n = (if n < 0 then Inl ValueError else Inr (zeros (nat n)))"

section \<open>The duration fitter: \<^verbatim>\<open>adjust_audio_length\<close> (lines 258-333)\<close>

text \<open>
  The external collaborators are parameters. \<open>loaded\<close> is the outcome of
  \<^verbatim>\<open>librosa.load(wav_path, sr=sample_rate)\<close>: \<open>None\<close> when it raises. \<open>stretch y r\<close> is the
  outcome of \<^verbatim>\<open>stretch_audio(..., ratio=r, ...)\<close> followed by reloading its output file:
  \<open>None\<close> when either raises (the \<^verbatim>\<open>except\<close> branch of line 324).
\<close>

type_synonym stretcher = "waveform \<Rightarrow> rat \<Rightarrow> waveform option"

text \<open>Lines 311-322: pad with zeros or crop to \<open>target_samples\<close>.\<close>

definition pad_or_crop :: "waveform \<Rightarrow> int \<Rightarrow> waveform" where
  "pad_or_crop y_stretched target_samples =
     (if int (length y_stretched) < target_samples
      then y_stretched @ zeros (nat (target_samples - int (length y_stretched)))
      else if int (length y_stretched) > target_samples
      then take (nat target_samples) y_stretched
      else y_stretched)"

text \<open>Lines 296-301: the ratio is not allowed below \<open>1 / max_speed_factor\<close>.\<close>

definition clamp_ratio :: "rat \<Rightarrow> rat \<Rightarrow> rat" where
  "clamp_ratio ratio max_speed_factor =
     (let min_ratio = 1 / max_speed_factor in
      if ratio < min_ratio then min_ratio else ratio)"

text \<open>
  The function itself. Line 286 divides by \<open>sample_rate\<close>, line 294 by \<open>current_length\<close> and
  line 298 by \<open>max_speed_factor\<close>, all outside the \<^verbatim>\<open>try\<close> blocks.
\<close>

definition adjust_audio_length ::
  "waveform option \<Rightarrow> rat \<Rightarrow> nat \<Rightarrow> rat \<Rightarrow> stretcher \<Rightarrow> error + waveform" where
  "adjust_audio_length loaded desired_length sample_rate max_speed_factor stretch =
     (case loaded of
        None \<Rightarrow> Inr (zeros 0)
      | Some y \<Rightarrow>
          if sample_rate = 0 then Inl ZeroDivisionError
          else let current_length = rat_of_nat (length y) / rat_of_nat sample_rate in
          if desired_length \<le> 0 then Inr y
          else if current_length = 0 then Inl ZeroDivisionError
          else let ratio = desired_length / current_length in
          if max_speed_factor = 0 then Inl ZeroDivisionError
          else let ratio = clamp_ratio ratio max_speed_factor in
          (case stretch y ratio of
             None \<Rightarrow> Inr y
           | Some y_stretched \<Rightarrow>
               Inr (pad_or_crop y_stretched (py_int (desired_length * rat_of_nat sample_rate)))))"

text \<open>Stretch primitives used in the worked examples below.\<close>

definition stretch_same :: stretcher where
  "stretch_same y r = Some y"

definition stretch_fails :: stretcher where
  "stretch_fails y r = None"

section \<open>Subtitle entries\<close>

text \<open>
  The parser (\<^verbatim>\<open>pysrt\<close>) is external; it yields entries with a start time, an end time
  and a text. A time has the four integer components that \<^verbatim>\<open>time_str_to_seconds\<close> reads.
\<close>

record SubRipTime =
  hours :: nat
  minutes :: nat
  seconds :: nat
  milliseconds :: nat

record SubRipItem =
  sub_start :: SubRipTime
  sub_end :: SubRipTime
  sub_text :: string

text \<open>Line 188.\<close>

definition time_str_to_seconds :: "SubRipTime \<Rightarrow> rat" where
  "time_str_to_seconds t_obj =
     rat_of_nat (hours t_obj) * 3600 + rat_of_nat (minutes t_obj) * 60
       + rat_of_nat (seconds t_obj) + rat_of_nat (milliseconds t_obj) / 1000"

text \<open>
  \<^verbatim>\<open>sub.text.replace('\n', ' ').strip()\<close> (lines 464, 534, 563). Strings are byte strings
  here, and \<^verbatim>\<open>strip\<close> removes the ASCII whitespace characters.
\<close>

definition is_space :: "char \<Rightarrow> bool" where
  "is_space c = (c = CHR '' '' \<or> c = CHR 0x09 \<or> c = CHR 0x0A \<or> c = CHR 0x0B
     \<or> c = CHR 0x0C \<or> c = CHR 0x0D \<or> c = CHR 0x1C \<or> c = CHR 0x1D \<or> c = CHR 0x1E
     \<or> c = CHR 0x1F)"

definition strip :: "string \<Rightarrow> string" where
  "strip s = rev (dropWhile is_space (rev (dropWhile is_space s)))"

definition replace_newlines :: "string \<Rightarrow> string" where
  "replace_newlines s = map (\<lambda>c. if c = CHR 0x0A then CHR '' '' else c) s"

definition clean_text :: "SubRipItem \<Rightarrow> string" where
  "clean_text sub = strip (replace_newlines (sub_text sub))"

section \<open>The synchronisation pass (lines 559-636)\<close>

text \<open>The statistics dictionary of lines 448-457.\<close>

record run_stats =
  stat_total :: nat
  stat_generated :: nat
  stat_resumed :: nat
  stat_cached :: nat
  stat_failed :: nat
  stat_empty :: nat
  stat_overlaps :: nat
  stat_late_starts :: nat

text \<open>
  The accumulation buffer: the list \<^verbatim>\<open>audio_segments\<close> and the counter
  \<^verbatim>\<open>current_total_samples\<close>, with the statistics carried along.
\<close>

record sync_state =
  audio_segments :: "waveform list"
  current_total_samples :: int
  stats :: run_stats

type_synonym tts_error = string

text \<open>
  What the pass reads from its surroundings. \<open>generation_errors\<close> is \<open>None\<close> when the
  local variable was never assigned (line 510 sits under \<^verbatim>\<open>if segments_to_generate:\<close>);
  otherwise it is the dictionary from segment index to \<^verbatim>\<open>None\<close> (success) or an
  exception. \<open>load_raw i\<close> is the outcome of loading \<^verbatim>\<open>raw_i.mp3\<close>.
\<close>

record sync_env =
  generation_errors :: "(nat \<rightharpoonup> tts_error option) option"
  load_raw :: "nat \<Rightarrow> waveform option"
  stretch_primitive :: stretcher
  max_speed :: rat

definition current_head_sec :: "sync_state \<Rightarrow> rat" where
  "current_head_sec st = rat_of_int (current_total_samples st) / rat_of_nat SAMPLE_RATE"

text \<open>\<^verbatim>\<open>audio_segments.append(chunk); current_total_samples += len(chunk)\<close>.\<close>

definition append_chunk :: "waveform \<Rightarrow> sync_state \<Rightarrow> sync_state" where
  "append_chunk chunk st =
     st\<lparr>audio_segments := audio_segments st @ [chunk],
        current_total_samples := current_total_samples st + int (length chunk)\<rparr>"

text \<open>\<^verbatim>\<open>audio_segments.append(np.zeros(n, ...)); current_total_samples += n\<close>.\<close>

definition append_silence :: "int \<Rightarrow> sync_state \<Rightarrow> error + sync_state" where
  "append_silence n st =
     (case np_zeros n of
        Inl e \<Rightarrow> Inl e
      | Inr chunk \<Rightarrow>
          Inr (st\<lparr>audio_segments := audio_segments st @ [chunk],
                  current_total_samples := current_total_samples st + n\<rparr>))"

text \<open>Lines 565-579: silence before the entry, or an overlap count.\<close>

definition pre_gap :: "rat \<Rightarrow> sync_state \<Rightarrow> error + sync_state" where
  "pre_gap start_sec st =
     (let gap_sec = start_sec - current_head_sec st in
      if gap_sec > 0 then append_silence (py_int (gap_sec * rat_of_nat SAMPLE_RATE)) st
      else if gap_sec < - OVERLAP_THRESHOLD
      then Inr (st\<lparr>stats := (stats st)\<lparr>stat_overlaps := stat_overlaps (stats st) + 1\<rparr>\<rparr>)
      else Inr st)"

text \<open>Lines 581-590: an entry without text.\<close>

definition empty_text_slot :: "rat \<Rightarrow> sync_state \<Rightarrow> error + sync_state" where
  "empty_text_slot end_sec st =
     (let st = st\<lparr>stats := (stats st)\<lparr>stat_empty := stat_empty (stats st) + 1\<rparr>\<rparr>;
          needed_sec = end_sec - current_head_sec st in
      if needed_sec > 0 then append_silence (py_int (needed_sec * rat_of_nat SAMPLE_RATE)) st
      else Inr st)"

text \<open>Line 596: \<^verbatim>\<open>i in generation_errors and generation_errors[i] is not None\<close>.\<close>

definition generation_failed :: "(nat \<rightharpoonup> tts_error option) \<Rightarrow> nat \<Rightarrow> bool" where
  "generation_failed ge i = (case ge i of Some (Some e) \<Rightarrow> True | _ \<Rightarrow> False)"

text \<open>Lines 604-623: fit the clip into the time left until the entry's end.\<close>

definition fit_and_append :: "sync_env \<Rightarrow> nat \<Rightarrow> rat \<Rightarrow> sync_state \<Rightarrow> error + sync_state" where
  "fit_and_append env i end_sec st =
     (let target_dur_for_segment = end_sec - current_head_sec st;
          late = (target_dur_for_segment < MIN_SEGMENT_DURATION);
          st = (if late
                then st\<lparr>stats := (stats st)\<lparr>stat_late_starts := stat_late_starts (stats st) + 1\<rparr>\<rparr>
                else st);
          target_dur_for_segment = (if late then MIN_SEGMENT_DURATION else target_dur_for_segment)
      in case adjust_audio_length (load_raw env i) target_dur_for_segment SAMPLE_RATE
                (max_speed env) (stretch_primitive env) of
           Inl e \<Rightarrow> Inl e
         | Inr stretched_wav \<Rightarrow> Inr (append_chunk stretched_wav st))"

text \<open>One iteration of the loop of line 559, for the entry \<open>sub\<close> at index \<open>i\<close>.\<close>

definition process_sub :: "sync_env \<Rightarrow> nat \<Rightarrow> SubRipItem \<Rightarrow> sync_state \<Rightarrow> error + sync_state" where
  "process_sub env i sub st =
     (let start_sec = time_str_to_seconds (sub_start sub);
          end_sec = time_str_to_seconds (sub_end sub);
          target_span_sec = end_sec - start_sec;
          text = clean_text sub
      in case pre_gap start_sec st of
           Inl e \<Rightarrow> Inl e
         | Inr st \<Rightarrow>
             if text = [] then empty_text_slot end_sec st
             else (case generation_errors env of
                     None \<Rightarrow> Inl UnboundLocalError
                   | Some ge \<Rightarrow>
                       if generation_failed ge i
                       then append_silence (py_int (target_span_sec * rat_of_nat SAMPLE_RATE)) st
                       else fit_and_append env i end_sec st))"

fun sync_loop :: "sync_env \<Rightarrow> nat \<Rightarrow> SubRipItem list \<Rightarrow> sync_state \<Rightarrow> error + sync_state" where
  "sync_loop env i [] st = Inr st"
| "sync_loop env i (sub # subs) st =
     (case process_sub env i sub st of
        Inl e \<Rightarrow> Inl e
      | Inr st' \<Rightarrow> sync_loop env (Suc i) subs st')"

text \<open>Lines 625-636: padding up to the target duration; an overrun only logs a warning.\<close>

definition final_padding :: "rat \<Rightarrow> sync_state \<Rightarrow> error + sync_state" where
  "final_padding final_target_sec st =
     (if final_target_sec > 0
      then let missing = final_target_sec - current_head_sec st in
           if missing > FINAL_PADDING_THRESHOLD
           then append_silence (py_int (missing * rat_of_nat SAMPLE_RATE)) st
           else Inr st
      else Inr st)"

text \<open>The state before the first entry (lines 428-429 and 448-457).\<close>

definition initial_stats :: "nat \<Rightarrow> run_stats" where
  "initial_stats n =
     \<lparr>stat_total = n, stat_generated = 0, stat_resumed = 0, stat_cached = 0, stat_failed = 0,
      stat_empty = 0, stat_overlaps = 0, stat_late_starts = 0\<rparr>"

definition initial_state :: "run_stats \<Rightarrow> sync_state" where
  "initial_state s = \<lparr>audio_segments = [], current_total_samples = 0, stats = s\<rparr>"

text \<open>The pass over all entries followed by the final padding.\<close>

definition synchronize ::
  "sync_env \<Rightarrow> rat \<Rightarrow> SubRipItem list \<Rightarrow> sync_state \<Rightarrow> error + sync_state" where
  "synchronize env final_target_sec subs st =
     (case sync_loop env 0 subs st of
        Inl e \<Rightarrow> Inl e
      | Inr st' \<Rightarrow> final_padding final_target_sec st')"

section \<open>Speech generation (lines 190-256)\<close>

text \<open>
  A file is its contents. The TTS backend is external: \<open>backend text output_file k\<close> is
  the outcome of attempt number \<open>k\<close> at \<^verbatim>\<open>Communicate(text, ...).save(output_file)\<close>,
  either the exception it raises or the clip it saves. A failed attempt is taken to leave
  the files as they were.
\<close>

type_synonym file_bytes = string
type_synonym backend = "string \<Rightarrow> string \<Rightarrow> nat \<Rightarrow> tts_error + file_bytes"

text \<open>
  The retry loop of \<^verbatim>\<open>generate_audio_segment\<close> over \<^verbatim>\<open>range(retries + 1)\<close>: \<open>Inl e\<close> when
  the last attempt's exception is re-raised, \<open>Inr (Some f)\<close> when an attempt saved \<open>f\<close>,
  \<open>Inr None\<close> when the range is empty and the function returns at once.
\<close>

fun attempt_loop :: "(nat \<Rightarrow> tts_error + file_bytes) \<Rightarrow> int \<Rightarrow> nat list \<Rightarrow> tts_error + file_bytes option" where
  "attempt_loop attempt retries [] = Inr None"
| "attempt_loop attempt retries (i # rest) =
     (case attempt i of
        Inr f \<Rightarrow> Inr (Some f)
      | Inl e \<Rightarrow> if int i < retries then attempt_loop attempt retries rest else Inl e)"

definition generate_audio_segment ::
  "backend \<Rightarrow> string \<Rightarrow> string \<Rightarrow> int \<Rightarrow> tts_error + file_bytes option" where
  "generate_audio_segment tts text output_file retries =
     attempt_loop (tts text output_file) retries [0..<nat (retries + 1)]"

text \<open>
  The working directory: the per-entry clips \<^verbatim>\<open>raw_<i>.mp3\<close> by index and the cached clips
  \<^verbatim>\<open>cache/cache_<hash>.mp3\<close> by hash. A cache path is identified with its hash.
\<close>

record file_system =
  raw_files :: "nat \<rightharpoonup> file_bytes"
  cache_files :: "string \<rightharpoonup> file_bytes"

type_synonym segment_info = "string \<times> string \<times> nat"
type_synonym outcomes = "nat \<rightharpoonup> tts_error option"

text \<open>\<^verbatim>\<open>generate_one\<close> (lines 231-236) turns the exception into a value.\<close>

definition generate_one ::
  "backend \<Rightarrow> int \<Rightarrow> segment_info \<Rightarrow> file_system \<Rightarrow> (nat \<times> tts_error option) \<times> file_system" where
  "generate_one tts retries seg fs =
     (case seg of (text, output_path, index) \<Rightarrow>
        (case generate_audio_segment tts text output_path retries of
           Inl e \<Rightarrow> ((index, Some e), fs)
         | Inr None \<Rightarrow> ((index, None), fs)
         | Inr (Some f) \<Rightarrow>
             ((index, None), fs\<lparr>cache_files := (cache_files fs)(output_path \<mapsto> f)\<rparr>)))"

text \<open>
  One window of lines 249-254. The tasks of a window run concurrently in the source; the
  model runs them in list order.
\<close>

definition run_one ::
  "backend \<Rightarrow> int \<Rightarrow> segment_info \<Rightarrow> outcomes \<times> file_system \<Rightarrow> outcomes \<times> file_system" where
  "run_one tts retries seg acc =
     (case generate_one tts retries seg (snd acc) of
        ((idx, err), fs') \<Rightarrow> ((fst acc)(idx \<mapsto> err), fs'))"

definition run_batch ::
  "backend \<Rightarrow> int \<Rightarrow> segment_info list \<Rightarrow> outcomes \<times> file_system \<Rightarrow> outcomes \<times> file_system" where
  "run_batch tts retries batch acc = fold (run_one tts retries) batch acc"

text \<open>The loop of line 241 for a positive step: windows of \<open>batch_size\<close> segments.\<close>

function generate_batches ::
  "backend \<Rightarrow> int \<Rightarrow> nat \<Rightarrow> segment_info list \<Rightarrow> outcomes \<times> file_system \<Rightarrow> outcomes \<times> file_system" where
  "generate_batches tts retries batch_size segments_info acc =
     (if segments_info = [] \<or> batch_size = 0 then acc
      else generate_batches tts retries batch_size (drop batch_size segments_info)
             (run_batch tts retries (take batch_size segments_info) acc))"
  by pat_completeness auto
termination
  by (relation "measure (\<lambda>(tts, retries, batch_size, segments_info, acc). length segments_info)") auto

text \<open>
  \<^verbatim>\<open>generate_audio_batch\<close>: \<^verbatim>\<open>range(0, n, 0)\<close> raises \<^verbatim>\<open>ValueError\<close>, and a negative step
  gives an empty range.
\<close>

definition generate_audio_batch ::
  "backend \<Rightarrow> segment_info list \<Rightarrow> int \<Rightarrow> int \<Rightarrow> file_system \<Rightarrow> error + outcomes \<times> file_system" where
  "generate_audio_batch tts segments_info batch_size retries fs =
     (if batch_size = 0 then Inl ValueError
      else if batch_size < 0 then Inr (Map.empty, fs)
      else Inr (generate_batches tts retries (nat batch_size) segments_info (Map.empty, fs)))"

section \<open>Collecting, caching and copying (lines 459-555)\<close>

text \<open>
  The remaining collaborators. \<open>md5_hexdigest\<close> is the digest function, \<open>copy_raises site i\<close>
  tells whether \<^verbatim>\<open>shutil.copy2\<close> onto \<^verbatim>\<open>raw_<i>.mp3\<close> raises at the first (line 484), second
  (line 521) or third (line 553) call site, \<open>decode\<close> is \<^verbatim>\<open>librosa.load\<close> on a file's
  contents.
\<close>

record world =
  md5_hexdigest :: "string \<Rightarrow> string"
  copy_raises :: "nat \<Rightarrow> nat \<Rightarrow> bool"
  tts_backend :: backend
  decode :: "file_bytes \<Rightarrow> waveform option"
  stretch_audio :: stretcher

record options =
  opt_resume :: bool
  opt_max_speed :: rat
  opt_batch_size :: int
  opt_retries :: int
  opt_final_target_sec :: rat

text \<open>\<^verbatim>\<open>str.lower\<close>, on the ASCII letters.\<close>

definition lower_char :: "char \<Rightarrow> char" where
  "lower_char c =
     (case map_of (zip ''ABCDEFGHIJKLMNOPQRSTUVWXYZ'' ''abcdefghijklmnopqrstuvwxyz'') c of
        Some d \<Rightarrow> d
      | None \<Rightarrow> c)"

definition lower :: "string \<Rightarrow> string" where
  "lower s = map lower_char s"

text \<open>\<^verbatim>\<open>os.path.exists(p) and os.path.getsize(p) > 0\<close>.\<close>

definition exists_nonempty :: "file_bytes option \<Rightarrow> bool" where
  "exists_nonempty f = (case f of None \<Rightarrow> False | Some b \<Rightarrow> b \<noteq> [])"

text \<open>
  \<^verbatim>\<open>shutil.copy2(cache_path, raw_audio_path)\<close>: \<open>None\<close> when it raises, which it also does
  when the source is missing.
\<close>

definition copy2 :: "world \<Rightarrow> nat \<Rightarrow> string \<Rightarrow> nat \<Rightarrow> file_system \<Rightarrow> file_system option" where
  "copy2 w site cache_path i fs =
     (case cache_files fs cache_path of
        None \<Rightarrow> None
      | Some f \<Rightarrow>
          if copy_raises w site i then None
          else Some (fs\<lparr>raw_files := (raw_files fs)(i \<mapsto> f)\<rparr>))"

text \<open>The state of the first pass.\<close>

record pass_state =
  pass_stats :: run_stats
  segments_to_generate :: "segment_info list"
  text_to_cache :: "string \<rightharpoonup> string"
  files :: file_system

text \<open>Lines 490-492 and 495-497.\<close>

definition schedule :: "string \<Rightarrow> string \<Rightarrow> nat \<Rightarrow> pass_state \<Rightarrow> pass_state" where
  "schedule text cache_path i ps =
     (if text_to_cache ps text = None
      then ps\<lparr>segments_to_generate := segments_to_generate ps @ [(text, cache_path, i)],
              text_to_cache := (text_to_cache ps)(text \<mapsto> cache_path)\<rparr>
      else ps)"

text \<open>One iteration of the loop of line 463.\<close>

definition collect_sub :: "world \<Rightarrow> options \<Rightarrow> nat \<Rightarrow> SubRipItem \<Rightarrow> pass_state \<Rightarrow> pass_state" where
  "collect_sub w cfg i sub ps =
     (let text = clean_text sub in
      if text = []
      then ps\<lparr>pass_stats := (pass_stats ps)\<lparr>stat_empty := stat_empty (pass_stats ps) + 1\<rparr>\<rparr>
      else if opt_resume cfg \<and> exists_nonempty (raw_files (files ps) i)
      then ps\<lparr>pass_stats := (pass_stats ps)\<lparr>stat_resumed := stat_resumed (pass_stats ps) + 1\<rparr>\<rparr>
      else let text_hash = md5_hexdigest w (lower text);
               cache_path = text_hash in
           if exists_nonempty (cache_files (files ps) cache_path)
           then (case copy2 w 1 cache_path i (files ps) of
                   Some fs' \<Rightarrow>
                     ps\<lparr>files := fs',
                        pass_stats := (pass_stats ps)\<lparr>stat_cached := stat_cached (pass_stats ps) + 1\<rparr>\<rparr>
                 | None \<Rightarrow> schedule text cache_path i ps)
           else schedule text cache_path i ps)"

fun collect_loop :: "world \<Rightarrow> options \<Rightarrow> nat \<Rightarrow> SubRipItem list \<Rightarrow> pass_state \<Rightarrow> pass_state" where
  "collect_loop w cfg i [] ps = ps"
| "collect_loop w cfg i (sub # subs) ps = collect_loop w cfg (Suc i) subs (collect_sub w cfg i sub ps)"

definition initial_pass_state :: "nat \<Rightarrow> file_system \<Rightarrow> pass_state" where
  "initial_pass_state n fs =
     \<lparr>pass_stats = initial_stats n, segments_to_generate = [], text_to_cache = Map.empty,
      files = fs\<rparr>"

text \<open>Lines 513-530: copy each generated clip to its entry and count the results.\<close>

definition settle_segment ::
  "world \<Rightarrow> outcomes \<Rightarrow> segment_info \<Rightarrow> run_stats \<times> file_system \<Rightarrow> run_stats \<times> file_system" where
  "settle_segment w ge seg acc =
     (case seg of (text, cache_path, idx) \<Rightarrow>
        (case acc of (s, fs) \<Rightarrow>
           if ge idx = Some None
           then (if cache_files fs cache_path \<noteq> None
                 then (case copy2 w 2 cache_path idx fs of
                         Some fs' \<Rightarrow> (s\<lparr>stat_generated := stat_generated s + 1\<rparr>, fs')
                       | None \<Rightarrow> (s\<lparr>stat_failed := stat_failed s + 1\<rparr>, fs))
                 else (s\<lparr>stat_generated := stat_generated s + 1\<rparr>, fs))
           else (s\<lparr>stat_failed := stat_failed s + 1\<rparr>, fs)))"

text \<open>One iteration of the loop of line 533.\<close>

definition propagate_sub :: "world \<Rightarrow> nat \<Rightarrow> SubRipItem \<Rightarrow> file_system \<Rightarrow> file_system" where
  "propagate_sub w i sub fs =
     (let text = clean_text sub in
      if text = [] then fs
      else if exists_nonempty (raw_files fs i) then fs
      else let text_hash = md5_hexdigest w (lower text);
               cache_path = text_hash in
           if cache_files fs cache_path \<noteq> None
           then (case copy2 w 3 cache_path i fs of Some fs' \<Rightarrow> fs' | None \<Rightarrow> fs)
           else fs)"

fun propagate_loop :: "world \<Rightarrow> nat \<Rightarrow> SubRipItem list \<Rightarrow> file_system \<Rightarrow> file_system" where
  "propagate_loop w i [] fs = fs"
| "propagate_loop w i (sub # subs) fs = propagate_loop w (Suc i) subs (propagate_sub w i sub fs)"

section \<open>The whole run: \<^verbatim>\<open>srt_to_audio_numpy\<close> from line 420 to line 636\<close>

text \<open>
  Lines 500-530: the generation phase runs only when something was scheduled; otherwise
  \<^verbatim>\<open>generation_errors\<close> stays unassigned.
\<close>

definition generation_phase ::
  "world \<Rightarrow> options \<Rightarrow> pass_state \<Rightarrow> error + (outcomes option \<times> run_stats \<times> file_system)" where
  "generation_phase w cfg ps =
     (if segments_to_generate ps = [] then Inr (None, pass_stats ps, files ps)
      else (case generate_audio_batch (tts_backend w) (segments_to_generate ps)
                   (opt_batch_size cfg) (opt_retries cfg) (files ps) of
              Inl e \<Rightarrow> Inl e
            | Inr (ge, fs) \<Rightarrow>
                (case fold (settle_segment w ge) (segments_to_generate ps) (pass_stats ps, fs) of
                   (s, fs') \<Rightarrow> Inr (Some ge, s, fs'))))"

definition make_sync_env :: "world \<Rightarrow> options \<Rightarrow> outcomes option \<Rightarrow> file_system \<Rightarrow> sync_env" where
  "make_sync_env w cfg ge fs =
     \<lparr>generation_errors = ge,
      load_raw = (\<lambda>i. case raw_files fs i of None \<Rightarrow> None | Some f \<Rightarrow> decode w f),
      stretch_primitive = stretch_audio w,
      max_speed = opt_max_speed cfg\<rparr>"

text \<open>
  The result is \<open>Inr None\<close> when the run returns early on an empty subtitle list (line 421),
  \<open>Inl e\<close> when an exception escapes, and otherwise the final buffer and files.
\<close>

definition srt_to_audio_numpy ::
  "world \<Rightarrow> options \<Rightarrow> SubRipItem list \<Rightarrow> file_system \<Rightarrow> error + (sync_state \<times> file_system) option" where
  "srt_to_audio_numpy w cfg subs fs0 =
     (if subs = [] then Inr None
      else (case generation_phase w cfg
                   (collect_loop w cfg 0 subs (initial_pass_state (length subs) fs0)) of
              Inl e \<Rightarrow> Inl e
            | Inr (ge, s, fs) \<Rightarrow>
                (let fs' = propagate_loop w 0 subs fs in
                 case synchronize (make_sync_env w cfg ge fs') (opt_final_target_sec cfg) subs
                        (initial_state s) of
                   Inl e \<Rightarrow> Inl e
                 | Inr st \<Rightarrow> Inr (Some (st, fs')))))"

section \<open>Which entries are scheduled\<close>

text \<open>
  The cache path of an entry (lines 477-478), and the condition under which the first pass
  reaches line 490 or line 495 for the entry at index \<open>i\<close>: it has text, it is not resumed,
  and it has no cache hit whose copy succeeds.
\<close>

definition cache_key :: "world \<Rightarrow> SubRipItem \<Rightarrow> string" where
  "cache_key w sub = md5_hexdigest w (lower (clean_text sub))"

definition needs_generation :: "world \<Rightarrow> options \<Rightarrow> file_system \<Rightarrow> nat \<Rightarrow> SubRipItem \<Rightarrow> bool" where
  "needs_generation w cfg fs i sub \<longleftrightarrow>
     clean_text sub \<noteq> []
     \<and> \<not> (opt_resume cfg \<and> exists_nonempty (raw_files fs i))
     \<and> \<not> (exists_nonempty (cache_files fs (cache_key w sub)) \<and> \<not> copy_raises w 1 i)"

text \<open>The texts of the entries that need generation, in entry order.\<close>

fun needed_texts :: "world \<Rightarrow> options \<Rightarrow> file_system \<Rightarrow> nat \<Rightarrow> SubRipItem list \<Rightarrow> string list" where
  "needed_texts w cfg fs i [] = []"
| "needed_texts w cfg fs i (sub # subs) =
     (if needs_generation w cfg fs i sub then [clean_text sub] else [])
       @ needed_texts w cfg fs (Suc i) subs"

text \<open>
  What the first pass builds, as a function of the files it starts from: line 490 and line
  495 test \<^verbatim>\<open>text not in text_to_cache\<close>, so an entry is scheduled when it needs generation
  and its text was not scheduled before.
\<close>

fun first_per_text ::
  "world \<Rightarrow> options \<Rightarrow> file_system \<Rightarrow> nat \<Rightarrow> SubRipItem list \<Rightarrow> string list \<Rightarrow> segment_info list" where
  "first_per_text w cfg fs i [] seen = []"
| "first_per_text w cfg fs i (sub # subs) seen =
     (if needs_generation w cfg fs i sub \<and> clean_text sub \<notin> set seen
      then (clean_text sub, cache_key w sub, i)
             # first_per_text w cfg fs (Suc i) subs (clean_text sub # seen)
      else first_per_text w cfg fs (Suc i) subs seen)"

text \<open>
  The deduplication policy in the words of the specification: of the entries that need
  synthesis, only the first one per normalized text is scheduled, with its cache path and
  its index. The normalized text is the lowercased text, the input of the digest.
\<close>

fun first_per_normalized ::
  "world \<Rightarrow> options \<Rightarrow> file_system \<Rightarrow> nat \<Rightarrow> SubRipItem list \<Rightarrow> string list \<Rightarrow> segment_info list" where
  "first_per_normalized w cfg fs i [] seen = []"
| "first_per_normalized w cfg fs i (sub # subs) seen =
     (if needs_generation w cfg fs i sub \<and> lower (clean_text sub) \<notin> set seen
      then (clean_text sub, cache_key w sub, i)
             # first_per_normalized w cfg fs (Suc i) subs (lower (clean_text sub) # seen)
      else first_per_normalized w cfg fs (Suc i) subs seen)"

text \<open>
  The cache key in the words of the specification, lowercased and whitespace-collapsed:
  every run of whitespace becomes one space, and the ends are trimmed.
\<close>

fun squeeze :: "string \<Rightarrow> string" where
  "squeeze [] = []"
| "squeeze [c] = [if is_space c then CHR '' '' else c]"
| "squeeze (c # d # cs) =
     (if is_space c
      then (if is_space d then squeeze (d # cs) else CHR '' '' # squeeze (d # cs))
      else c # squeeze (d # cs))"

definition spec_cache_key :: "string \<Rightarrow> string" where
  "spec_cache_key raw = lower (strip (squeeze raw))"

section \<open>Measures on the buffer\<close>

text \<open>The number of samples and the duration in seconds held by a list of chunks.\<close>

definition buffer_samples :: "waveform list \<Rightarrow> int" where
  "buffer_samples chunks = sum_list (map (\<lambda>w. int (length w)) chunks)"

definition chunk_duration :: "waveform \<Rightarrow> rat" where
  "chunk_duration w = rat_of_nat (length w) / rat_of_nat SAMPLE_RATE"

text \<open>
  \<open>appended st chunks st'\<close>: the state \<open>st'\<close> is \<open>st\<close> with \<open>chunks\<close> appended to the buffer
  and the counter advanced by their sample count.
\<close>

definition appended :: "sync_state \<Rightarrow> waveform list \<Rightarrow> sync_state \<Rightarrow> bool" where
  "appended st chunks st' \<longleftrightarrow>
     audio_segments st' = audio_segments st @ chunks
     \<and> current_total_samples st' = current_total_samples st + buffer_samples chunks"

section \<open>Inputs of the worked examples\<close>

text \<open>A time given in milliseconds, and an entry from its start, its end and its text.\<close>

definition at_ms :: "nat \<Rightarrow> SubRipTime" where
  "at_ms ms = \<lparr>hours = 0, minutes = 0, seconds = ms div 1000, milliseconds = ms mod 1000\<rparr>"

definition entry :: "nat \<Rightarrow> nat \<Rightarrow> string \<Rightarrow> SubRipItem" where
  "entry start_ms end_ms txt =
     \<lparr>sub_start = at_ms start_ms, sub_end = at_ms end_ms, sub_text = txt\<rparr>"

text \<open>Surroundings in which nothing was generated and no clip can be loaded.\<close>

definition silent_env :: sync_env where
  "silent_env = \<lparr>generation_errors = None, load_raw = (\<lambda>i. None),
     stretch_primitive = stretch_same, max_speed = 3 / 2\<rparr>"


text \<open>Surroundings in which generation ran without a failure but no clip can be loaded.\<close>

definition unreadable_env :: sync_env where
  "unreadable_env = \<lparr>generation_errors = Some Map.empty, load_raw = (\<lambda>i. None),
     stretch_primitive = stretch_same, max_speed = 3 / 2\<rparr>"

text \<open>A backend whose every attempt fails, and an empty working directory.\<close>

definition always_fails :: backend where
  "always_fails text output_file k = Inl ''timeout''"

definition empty_files :: file_system where
  "empty_files = \<lparr>raw_files = Map.empty, cache_files = Map.empty\<rparr>"

text \<open>
  A world in which the digest of a text is the text itself, no copy fails, the backend
  saves the text as the clip on the first attempt, every clip decodes to three samples and
  stretching returns its input; the default options of the command line.
\<close>

definition speaks :: backend where
  "speaks text output_file k = Inr text"

definition plain_world :: world where
  "plain_world = \<lparr>md5_hexdigest = (\<lambda>s. s), copy_raises = (\<lambda>site i. False),
     tts_backend = speaks, decode = (\<lambda>f. Some [0, 0, 0]), stretch_audio = stretch_same\<rparr>"

definition default_options :: options where
  "default_options = \<lparr>opt_resume = False, opt_max_speed = 3 / 2, opt_batch_size = 10,
     opt_retries = 10, opt_final_target_sec = 0\<rparr>"

text \<open>The same world with the failing backend.\<close>

definition failing_world :: world where
  "failing_world = plain_world\<lparr>tts_backend := always_fails\<rparr>"

definition scenario :: "SubRipItem list" where
  "scenario = [entry 0 2000 ''Hello'', entry 2000 4000 [], entry 4000 4050 ''Hi'']"

text \<open>The files after generation for the two distinct texts of the scenario.\<close>

definition scenario_files :: file_system where
  "scenario_files = \<lparr>raw_files = [0 \<mapsto> ''Hello'', 2 \<mapsto> ''Hi''],
           cache_files = [''hello'' \<mapsto> ''Hello'', ''hi'' \<mapsto> ''Hi'']\<rparr>"

text \<open>Entries repeating a text, a world whose first copy site fails, and a warm cache.\<close>

definition repeated :: "SubRipItem list" where
  "repeated = [entry 0 1000 ''Hello'', entry 1000 2000 ''Hello'', entry 2000 3000 ''Hi'']"

definition copy_failing_world :: world where
  "copy_failing_world = plain_world\<lparr>copy_raises := (\<lambda>site i. site = 1)\<rparr>"

definition cached_files :: file_system where
  "cached_files = \<lparr>raw_files = Map.empty, cache_files = [''hello'' \<mapsto> ''old clip'']\<rparr>"

section \<open>Properties of the duration fitter\<close>

lemma length_zeros: "length (zeros n) = n"
  by (simp add: zeros_def)

lemma length_pad_or_crop:
  "0 \<le> t \<Longrightarrow> int (length (pad_or_crop y t)) = t"
  by (auto simp: pad_or_crop_def length_zeros)


lemma py_int_floor: "0 \<le> x \<Longrightarrow> py_int x = \<lfloor>x\<rfloor>"
  by (simp add: py_int_def)

lemma clamp_ratio_ge: "1 / msf \<le> clamp_ratio r msf"
  by (simp add: clamp_ratio_def Let_def)

lemma adjust_loaded:
  assumes "0 < D" and "y \<noteq> []" and "sr \<noteq> 0" and "msf \<noteq> 0"
  shows "adjust_audio_length (Some y) D sr msf stretch =
           (case stretch y (clamp_ratio (D / (rat_of_nat (length y) / rat_of_nat sr)) msf) of
              None \<Rightarrow> Inr y
            | Some z \<Rightarrow> Inr (pad_or_crop z \<lfloor>D * rat_of_nat sr\<rfloor>))"
proof -
  have "0 \<le> D * rat_of_nat sr" using assms(1) by simp
  then have "py_int (D * rat_of_nat sr) = \<lfloor>D * rat_of_nat sr\<rfloor>" by (rule py_int_floor)
  then show ?thesis
    using assms by (simp add: adjust_audio_length_def Let_def split: option.split)
qed

text \<open>
  Claim C1, as amended. For a positive desired duration \<open>D\<close>, a loaded clip with at least
  one sample and a stretch primitive that does not fail, \<^verbatim>\<open>adjust_audio_length\<close> returns a
  waveform of exactly \<open>\<lfloor>D * sample_rate\<rfloor>\<close> samples: line 312 truncates with \<^verbatim>\<open>int\<close>, it
  does not round.
\<close>

theorem fit_sample_count:
  assumes "0 < D" and "y \<noteq> []" and "sr \<noteq> 0" and "msf \<noteq> 0"
    and "\<And>r. stretch y r \<noteq> None"
  shows "\<exists>w. adjust_audio_length (Some y) D sr msf stretch = Inr w
           \<and> int (length w) = \<lfloor>D * rat_of_nat sr\<rfloor>"
proof -
  let ?r = "clamp_ratio (D / (rat_of_nat (length y) / rat_of_nat sr)) msf"
  obtain z where z: "stretch y ?r = Some z"
    using assms(5) [of ?r] by (metis option.exhaust)
  have "0 \<le> \<lfloor>D * rat_of_nat sr\<rfloor>" using assms(1) by simp
  then have "int (length (pad_or_crop z \<lfloor>D * rat_of_nat sr\<rfloor>)) = \<lfloor>D * rat_of_nat sr\<rfloor>"
    by (rule length_pad_or_crop)
  then show ?thesis
    using adjust_loaded [OF assms(1-4), of stretch] z by simp
qed

theorem fit_sample_count_witness:
  "\<exists>w. adjust_audio_length (Some [0, 0, 0]) (1 / 1000) SAMPLE_RATE (3 / 2) stretch_same = Inr w
     \<and> int (length w) = 24"
proof -
  have "\<exists>w. adjust_audio_length (Some [0, 0, 0]) (1 / 1000) SAMPLE_RATE (3 / 2) stretch_same = Inr w
     \<and> int (length w) = \<lfloor>(1 / 1000) * rat_of_nat SAMPLE_RATE\<rfloor>"
    by (rule fit_sample_count) (simp_all add: SAMPLE_RATE_def stretch_same_def)
  then show ?thesis by (simp add: SAMPLE_RATE_def)
qed

text \<open>
  Claim C1 as stated fails: a one-sample clip fitted to \<open>1 / 32768\<close> seconds at 24 kHz
  (0.73 samples) comes back with no sample, while rounding gives one.
\<close>

theorem fit_round_counterexample:
  "adjust_audio_length (Some [0]) (1 / 32768) SAMPLE_RATE (3 / 2) stretch_same = Inr []
   \<and> int (length ([] :: waveform)) \<noteq> round ((1 / 32768 :: rat) * rat_of_nat SAMPLE_RATE)"
proof -
  have "round ((1 / 32768 :: rat) * 24000) = 1"
    by (simp add: round_def floor_unique)
  moreover have "\<lfloor>(1 / 32768 :: rat) * 24000\<rfloor> = 0"
    by (simp add: floor_unique)
  ultimately show ?thesis
    by (simp add: adjust_audio_length_def clamp_ratio_def stretch_same_def pad_or_crop_def
        py_int_def SAMPLE_RATE_def)
qed

text \<open>
  Claim C4, as amended. Whenever \<^verbatim>\<open>adjust_audio_length\<close> reaches the stretch primitive (a
  positive desired duration, a loaded clip with at least one sample, a non-zero sample rate
  and speed factor), the ratio it passes is at least \<open>1 / max_speed_factor\<close>, and the
  primitive is never consulted at a smaller ratio. When the primitive succeeds, clamped or
  not, the result has exactly \<open>\<lfloor>D * sample_rate\<rfloor>\<close> samples; when it fails, the raw clip
  is returned as it is.
\<close>

theorem clamped_ratio_and_length:
  assumes "0 < D" and "y \<noteq> []" and "sr \<noteq> 0" and "msf \<noteq> 0"
  shows "1 / msf \<le> clamp_ratio (D / (rat_of_nat (length y) / rat_of_nat sr)) msf
       \<and> adjust_audio_length (Some y) D sr msf stretch
           = (case stretch y (clamp_ratio (D / (rat_of_nat (length y) / rat_of_nat sr)) msf) of
                None \<Rightarrow> Inr y
              | Some z \<Rightarrow> Inr (pad_or_crop z \<lfloor>D * rat_of_nat sr\<rfloor>))
       \<and> (\<forall>z. stretch y (clamp_ratio (D / (rat_of_nat (length y) / rat_of_nat sr)) msf) = Some z
              \<longrightarrow> (\<exists>w. adjust_audio_length (Some y) D sr msf stretch = Inr w
                     \<and> int (length w) = \<lfloor>D * rat_of_nat sr\<rfloor>))
       \<and> adjust_audio_length (Some y) D sr msf stretch
           = adjust_audio_length (Some y) D sr msf (\<lambda>z r. if 1 / msf \<le> r then stretch z r else None)"
proof -
  let ?r = "clamp_ratio (D / (rat_of_nat (length y) / rat_of_nat sr)) msf"
  have ge: "1 / msf \<le> ?r" by (rule clamp_ratio_ge)
  have eq: "adjust_audio_length (Some y) D sr msf s
           = (case s y ?r of None \<Rightarrow> Inr y | Some z \<Rightarrow> Inr (pad_or_crop z \<lfloor>D * rat_of_nat sr\<rfloor>))"
    for s using assms by (rule adjust_loaded)
  have "0 \<le> \<lfloor>D * rat_of_nat sr\<rfloor>" using assms(1) by simp
  then have len: "int (length (pad_or_crop z \<lfloor>D * rat_of_nat sr\<rfloor>)) = \<lfloor>D * rat_of_nat sr\<rfloor>" for z
    by (rule length_pad_or_crop)
  have same: "adjust_audio_length (Some y) D sr msf stretch
           = adjust_audio_length (Some y) D sr msf (\<lambda>z r. if 1 / msf \<le> r then stretch z r else None)"
    using ge by (simp add: eq)
  have exact: "\<forall>z. stretch y ?r = Some z
      \<longrightarrow> (\<exists>w. adjust_audio_length (Some y) D sr msf stretch = Inr w
             \<and> int (length w) = \<lfloor>D * rat_of_nat sr\<rfloor>)"
  proof (intro allI impI)
    fix z assume "stretch y ?r = Some z"
    then have "adjust_audio_length (Some y) D sr msf stretch
        = Inr (pad_or_crop z \<lfloor>D * rat_of_nat sr\<rfloor>)"
      by (simp only: eq [of stretch] option.case)
    then show "\<exists>w. adjust_audio_length (Some y) D sr msf stretch = Inr w
             \<and> int (length w) = \<lfloor>D * rat_of_nat sr\<rfloor>"
      using len by blast
  qed
  from ge eq [of stretch] exact same show ?thesis
    by (intro conjI)
qed

theorem clamped_ratio_and_length_witness:
  "clamp_ratio ((1 / 24000) / (rat_of_nat (length [0, 0, 0, 0 :: rat]) / rat_of_nat SAMPLE_RATE)) (3 / 2) = 2 / 3
   \<and> adjust_audio_length (Some [0, 0, 0, 0]) (1 / 24000) SAMPLE_RATE (3 / 2) stretch_same = Inr [0]
   \<and> int (length [0 :: rat]) = \<lfloor>(1 / 24000) * rat_of_nat SAMPLE_RATE\<rfloor>"
proof -
  have a: "(0::rat) < 1 / 24000" and b: "[0, 0, 0, 0 :: rat] \<noteq> []"
    and c: "SAMPLE_RATE \<noteq> 0" and d: "(3 / 2 :: rat) \<noteq> 0"
    by (simp_all add: SAMPLE_RATE_def)
  have r: "clamp_ratio ((1 / 24000) / (rat_of_nat (length [0, 0, 0, 0 :: rat]) / rat_of_nat SAMPLE_RATE)) (3 / 2) = 2 / 3"
    by (simp add: clamp_ratio_def SAMPLE_RATE_def)
  from clamped_ratio_and_length [OF a b c d, of stretch_same] r
  show ?thesis
    by (simp add: stretch_same_def pad_or_crop_def SAMPLE_RATE_def)
qed

text \<open>
  Claim C4 as stated fails: a two-second clip asked to fit one second has its ratio clamped
  to \<open>2 / 3\<close>, and when the stretch primitive fails the two-second clip is returned.
\<close>

theorem clamp_counterexample:
  "adjust_audio_length (Some (zeros 48000)) 1 SAMPLE_RATE (3 / 2) stretch_fails = Inr (zeros 48000)
   \<and> clamp_ratio (1 / (rat_of_nat (length (zeros 48000)) / rat_of_nat SAMPLE_RATE)) (3 / 2) = 2 / 3
   \<and> rat_of_nat (length (zeros 48000)) / rat_of_nat SAMPLE_RATE \<noteq> 1"
  by (simp add: adjust_audio_length_def clamp_ratio_def stretch_fails_def length_zeros SAMPLE_RATE_def)

section \<open>Properties of the synchronisation pass\<close>

lemma sample_rate_pos: "0 < rat_of_nat SAMPLE_RATE"
  by (simp add: SAMPLE_RATE_def)

lemma py_int_scaled_nonneg: "0 < x \<Longrightarrow> 0 \<le> py_int (x * rat_of_nat SAMPLE_RATE)"
  using sample_rate_pos by (simp add: py_int_def)

lemma buffer_samples_append [simp]:
  "buffer_samples (xs @ ys) = buffer_samples xs + buffer_samples ys"
  by (simp add: buffer_samples_def)

lemma buffer_samples_nonneg: "0 \<le> buffer_samples xs"
  by (induction xs) (simp_all add: buffer_samples_def)

lemma buffer_samples_single [simp]: "buffer_samples [w] = int (length w)"
  by (simp add: buffer_samples_def)

lemma buffer_samples_Nil [simp]: "buffer_samples [] = 0"
  by (simp add: buffer_samples_def)

lemma appended_refl: "appended st [] st"
  by (simp add: appended_def)

lemma appended_trans:
  "appended a xs b \<Longrightarrow> appended b ys c \<Longrightarrow> appended a (xs @ ys) c"
  by (simp add: appended_def)

lemma appended_stats: "appended st [] (st\<lparr>stats := s\<rparr>)"
  by (simp add: appended_def)

lemma append_silence_Inr:
  "append_silence n st = Inr st' \<Longrightarrow>
     0 \<le> n \<and> st' = st\<lparr>audio_segments := audio_segments st @ [zeros (nat n)],
                        current_total_samples := current_total_samples st + n\<rparr>"
  by (auto simp: append_silence_def np_zeros_def split: if_splits)

lemma append_silence_ok:
  "0 \<le> n \<Longrightarrow> append_silence n st =
     Inr (st\<lparr>audio_segments := audio_segments st @ [zeros (nat n)],
             current_total_samples := current_total_samples st + n\<rparr>)"
  by (simp add: append_silence_def np_zeros_def)

lemma append_silence_appended:
  "append_silence n st = Inr st' \<Longrightarrow> appended st [zeros (nat n)] st'"
  by (auto dest!: append_silence_Inr simp: appended_def length_zeros)

lemma append_chunk_appended: "appended st [w] (append_chunk w st)"
  by (simp add: appended_def append_chunk_def)

lemma pre_gap_total: "\<exists>st'. pre_gap start_sec st = Inr st'"
  by (simp add: pre_gap_def Let_def append_silence_ok py_int_scaled_nonneg)

lemma pre_gap_appended:
  assumes "pre_gap start_sec st = Inr st'"
  shows "\<exists>gap. appended st gap st' \<and> length gap \<le> 1"
proof (cases "start_sec - current_head_sec st > 0")
  case True
  with assms have "appended st [zeros (nat (py_int ((start_sec - current_head_sec st) * rat_of_nat SAMPLE_RATE)))] st'"
    by (simp add: pre_gap_def Let_def append_silence_appended)
  then show ?thesis by (intro exI [of _ "[_]"]) simp
next
  case False
  with assms have "appended st [] st'"
    by (auto simp: pre_gap_def Let_def appended_def split: if_splits)
  then show ?thesis by (intro exI [of _ "[]"]) simp
qed

lemma empty_text_slot_total: "\<exists>st'. empty_text_slot end_sec st = Inr st'"
  by (simp add: empty_text_slot_def Let_def append_silence_ok py_int_scaled_nonneg)

lemma empty_text_slot_appended:
  assumes "empty_text_slot end_sec st = Inr st'"
  shows "\<exists>own. appended st own st' \<and> length own \<le> 1"
proof (cases "end_sec - current_head_sec st > 0")
  case True
  let ?st = "st\<lparr>stats := (stats st)\<lparr>stat_empty := stat_empty (stats st) + 1\<rparr>\<rparr>"
  from True assms have "appended ?st [zeros (nat (py_int ((end_sec - current_head_sec st) * rat_of_nat SAMPLE_RATE)))] st'"
    by (simp add: empty_text_slot_def Let_def append_silence_appended current_head_sec_def)
  then have "appended st [zeros (nat (py_int ((end_sec - current_head_sec st) * rat_of_nat SAMPLE_RATE)))] st'"
    by (simp add: appended_def)
  then show ?thesis by (intro exI [of _ "[_]"]) simp
next
  case False
  with assms have "appended st [] st'"
    by (auto simp: empty_text_slot_def Let_def appended_def current_head_sec_def split: if_splits)
  then show ?thesis by (intro exI [of _ "[]"]) simp
qed

lemma fit_and_append_appended:
  assumes "fit_and_append env i end_sec st = Inr st'"
  shows "\<exists>w. appended st [w] st'"
  using assms
  by (auto simp: fit_and_append_def Let_def appended_def append_chunk_def
      split: sum.splits if_splits)

lemma process_sub_appended:
  assumes "process_sub env i sub st = Inr st'"
  shows "\<exists>gap own. appended st (gap @ own) st' \<and> length gap \<le> 1 \<and> length own \<le> 1
           \<and> (clean_text sub \<noteq> [] \<longrightarrow> length own = 1)"
proof -
  obtain st1 where st1: "pre_gap (time_str_to_seconds (sub_start sub)) st = Inr st1"
    using pre_gap_total by blast
  then obtain gap where gap: "appended st gap st1" "length gap \<le> 1"
    using pre_gap_appended by blast
  have "\<exists>own. appended st1 own st' \<and> length own \<le> 1 \<and> (clean_text sub \<noteq> [] \<longrightarrow> length own = 1)"
  proof (cases "clean_text sub = []")
    case True
    with assms st1 have "empty_text_slot (time_str_to_seconds (sub_end sub)) st1 = Inr st'"
      by (simp add: process_sub_def Let_def)
    with True show ?thesis using empty_text_slot_appended by blast
  next
    case False
    with assms st1 obtain ge where ge: "generation_errors env = Some ge"
      by (auto simp: process_sub_def Let_def split: option.splits)
    show ?thesis
    proof (cases "generation_failed ge i")
      case True
      with assms st1 False ge have "\<exists>n. append_silence n st1 = Inr st'"
        by (auto simp: process_sub_def Let_def)
      then obtain n where "appended st1 [zeros (nat n)] st'"
        using append_silence_appended by blast
      then show ?thesis by (intro exI [of _ "[_]"]) simp
    next
      case nf: False
      with assms st1 False ge
      have "fit_and_append env i (time_str_to_seconds (sub_end sub)) st1 = Inr st'"
        by (simp add: process_sub_def Let_def)
      then obtain w where "appended st1 [w] st'"
        using fit_and_append_appended by blast
      then show ?thesis by (intro exI [of _ "[_]"]) simp
    qed
  qed
  then obtain own where "appended st1 own st'" "length own \<le> 1"
     "clean_text sub \<noteq> [] \<longrightarrow> length own = 1" by blast
  with gap show ?thesis
    using appended_trans by blast
qed

lemma sync_loop_append:
  "sync_loop env i (xs @ ys) st =
     (case sync_loop env i xs st of
        Inl e \<Rightarrow> Inl e
      | Inr st' \<Rightarrow> sync_loop env (i + length xs) ys st')"
  by (induction xs arbitrary: i st) (auto split: sum.splits)

lemma sync_loop_chunks:
  assumes "sync_loop env i subs st = Inr st'"
  shows "\<exists>gaps owns. appended st (concat (map2 (@) gaps owns)) st'
           \<and> list_all2 (\<lambda>sub gap. length gap \<le> 1) subs gaps
           \<and> list_all2 (\<lambda>sub own. length own \<le> 1 \<and> (clean_text sub \<noteq> [] \<longrightarrow> length own = 1))
                subs owns"
  using assms
proof (induction subs arbitrary: i st)
  case Nil
  then have "appended st (concat (map2 (@) [] [])) st'"
    by (simp add: appended_def)
  then show ?case by (intro exI [of _ "[]"]) simp
next
  case (Cons sub subs)
  then obtain st1 where st1: "process_sub env i sub st = Inr st1"
    and rest: "sync_loop env (Suc i) subs st1 = Inr st'"
    by (auto split: sum.splits)
  from process_sub_appended [OF st1] obtain gap own where
    go: "appended st (gap @ own) st1" "length gap \<le> 1" "length own \<le> 1"
        "clean_text sub \<noteq> [] \<longrightarrow> length own = 1" by blast
  from Cons.IH [OF rest] obtain gaps owns where
    ih: "appended st1 (concat (map2 (@) gaps owns)) st'"
        "list_all2 (\<lambda>sub gap. length gap \<le> 1) subs gaps"
        "list_all2 (\<lambda>sub own. length own \<le> 1 \<and> (clean_text sub \<noteq> [] \<longrightarrow> length own = 1)) subs owns"
    by blast
  have "appended st (concat (map2 (@) (gap # gaps) (own # owns))) st'"
    using appended_trans [OF go(1) ih(1)] by simp
  moreover have "list_all2 (\<lambda>sub gap. length gap \<le> 1) (sub # subs) (gap # gaps)"
    using go(2) ih(2) by simp
  moreover have "list_all2 (\<lambda>sub own. length own \<le> 1 \<and> (clean_text sub \<noteq> [] \<longrightarrow> length own = 1))
       (sub # subs) (own # owns)"
    using go(3,4) ih(3) by simp
  ultimately show ?case by blast
qed


lemma final_padding_total: "\<exists>st'. final_padding target st = Inr st'"
proof (cases "0 < target \<and> target - current_head_sec st > FINAL_PADDING_THRESHOLD")
  case True
  then have "0 < target - current_head_sec st"
    by (simp add: FINAL_PADDING_THRESHOLD_def)
  then show ?thesis
    using True by (simp add: final_padding_def Let_def append_silence_ok py_int_scaled_nonneg)
next
  case False
  then show ?thesis by (auto simp: final_padding_def Let_def)
qed

lemma final_padding_appended:
  assumes "final_padding target st = Inr st'"
  shows "\<exists>pad. appended st pad st' \<and> length pad \<le> 1"
proof (cases "0 < target \<and> target - current_head_sec st > FINAL_PADDING_THRESHOLD")
  case True
  with assms have "\<exists>n. append_silence n st = Inr st'"
    by (auto simp: final_padding_def Let_def)
  then obtain n where "appended st [zeros (nat n)] st'"
    using append_silence_appended by blast
  then show ?thesis by (intro exI [of _ "[_]"]) simp
next
  case False
  with assms have "appended st [] st'"
    by (auto simp: final_padding_def Let_def appended_def split: if_splits)
  then show ?thesis by (intro exI [of _ "[]"]) simp
qed

lemma seconds_at_ms [simp]: "time_str_to_seconds (at_ms ms) = rat_of_nat ms / 1000"
proof -
  have "rat_of_nat ms = rat_of_nat (ms div 1000 * 1000 + ms mod 1000)" by simp
  also have "\<dots> = rat_of_nat (ms div 1000) * 1000 + rat_of_nat (ms mod 1000)"
    by (simp only: of_nat_add of_nat_mult of_nat_numeral)
  finally show ?thesis
    by (simp add: time_str_to_seconds_def at_ms_def add_divide_distrib)
qed

lemma entry_sel [simp]:
  "sub_start (entry a b t) = at_ms a" "sub_end (entry a b t) = at_ms b" "sub_text (entry a b t) = t"
  by (simp_all add: entry_def)

lemmas text_eval = clean_text_def strip_def replace_newlines_def is_space_def








lemma appended_mono:
  "appended st chunks st' \<Longrightarrow> current_total_samples st \<le> current_total_samples st'"
  using buffer_samples_nonneg [of chunks] by (simp add: appended_def)

lemma appended_exact:
  "appended st chunks st' \<Longrightarrow> current_total_samples st = buffer_samples (audio_segments st)
     \<Longrightarrow> current_total_samples st' = buffer_samples (audio_segments st')"
  by (simp add: appended_def)

lemma sync_loop_appended:
  assumes "sync_loop env i subs st = Inr st'"
  shows "\<exists>chunks. appended st chunks st'"
  using sync_loop_chunks [OF assms] by blast

lemma head_sec_mono:
  "current_total_samples st \<le> current_total_samples st' \<Longrightarrow> current_head_sec st \<le> current_head_sec st'"
  using sample_rate_pos by (simp add: current_head_sec_def divide_right_mono)

lemma sum_chunk_duration:
  "sum_list (map chunk_duration chunks) = rat_of_int (buffer_samples chunks) / rat_of_nat SAMPLE_RATE"
  by (induction chunks) (simp_all add: chunk_duration_def buffer_samples_def add_divide_distrib)

lemma head_sec_exact:
  "current_total_samples st = buffer_samples (audio_segments st)
     \<Longrightarrow> current_head_sec st = sum_list (map chunk_duration (audio_segments st))"
  by (simp add: sum_chunk_duration current_head_sec_def)

lemma initial_exact:
  "current_total_samples (initial_state s) = buffer_samples (audio_segments (initial_state s))"
  by (simp add: initial_state_def)

lemmas sync_eval = synchronize_def process_sub_def pre_gap_def empty_text_slot_def
  final_padding_def append_silence_def np_zeros_def py_int_def current_head_sec_def
  initial_state_def initial_stats_def SAMPLE_RATE_def OVERLAP_THRESHOLD_def
  FINAL_PADDING_THRESHOLD_def Let_def

text \<open>
  Claim C3. Take the states reached after the first \<open>j\<close> and the first \<open>k\<close> entries,
  \<open>j \<le> k\<close>. The output clock \<open>current_total_samples / SAMPLE_RATE\<close> of the earlier state is
  at most that of the later one, and in each of them it equals the sum of the durations of
  the chunks in the buffer. The same holds across the pre-gap step of the next entry and
  across the final padding. An overlap only counts a statistic: nothing is taken back.
\<close>

theorem clock_monotone_exact:
  assumes run: "sync_loop env 0 (take k subs) (initial_state s) = Inr sk" and jk: "j \<le> k"
  shows "\<exists>sj. sync_loop env 0 (take j subs) (initial_state s) = Inr sj
           \<and> current_head_sec sj \<le> current_head_sec sk
           \<and> current_head_sec sj = sum_list (map chunk_duration (audio_segments sj))
           \<and> current_head_sec sk = sum_list (map chunk_duration (audio_segments sk))
           \<and> (\<exists>sg. pre_gap start_sec sk = Inr sg
                 \<and> current_head_sec sk \<le> current_head_sec sg
                 \<and> current_head_sec sg = sum_list (map chunk_duration (audio_segments sg)))
           \<and> (\<exists>sf. final_padding target sk = Inr sf
                 \<and> current_head_sec sk \<le> current_head_sec sf
                 \<and> current_head_sec sf = sum_list (map chunk_duration (audio_segments sf)))"
proof -
  define ys where "ys = drop j (take k subs)"
  have a: "take j (take k subs) = take j subs"
    using jk by (simp add: min_absorb1)
  have "take j (take k subs) @ drop j (take k subs) = take k subs"
    by (rule append_take_drop_id)
  then have b: "take j subs @ ys = take k subs"
    unfolding ys_def a .
  have "sync_loop env 0 (take j subs @ ys) (initial_state s) = Inr sk"
    unfolding b by (rule run)
  then obtain sj where sj: "sync_loop env 0 (take j subs) (initial_state s) = Inr sj"
    and rest: "sync_loop env (0 + length (take j subs)) ys sj = Inr sk"
    unfolding sync_loop_append by (auto split: sum.splits)
  from sync_loop_appended [OF sj] obtain c1 where c1: "appended (initial_state s) c1 sj" ..
  from sync_loop_appended [OF rest] obtain c2 where c2: "appended sj c2 sk" ..
  have ej: "current_total_samples sj = buffer_samples (audio_segments sj)"
    using appended_exact [OF c1 initial_exact] .
  have ek: "current_total_samples sk = buffer_samples (audio_segments sk)"
    using appended_exact [OF c2 ej] .
  obtain sg where sg: "pre_gap start_sec sk = Inr sg"
    using pre_gap_total by blast
  then obtain cg where cg: "appended sk cg sg"
    using pre_gap_appended by blast
  obtain sf where sf: "final_padding target sk = Inr sf"
    using final_padding_total by blast
  then obtain cf where cf: "appended sk cf sf"
    using final_padding_appended by blast
  have "current_head_sec sj \<le> current_head_sec sk"
    using appended_mono [OF c2] by (rule head_sec_mono)
  moreover have "current_head_sec sk \<le> current_head_sec sg"
    using appended_mono [OF cg] by (rule head_sec_mono)
  moreover have "current_head_sec sk \<le> current_head_sec sf"
    using appended_mono [OF cf] by (rule head_sec_mono)
  moreover note head_sec_exact [OF ej] head_sec_exact [OF ek]
    head_sec_exact [OF appended_exact [OF cg ek]] head_sec_exact [OF appended_exact [OF cf ek]]
  ultimately show ?thesis using sj sg sf by blast
qed

theorem clock_monotone_exact_witness:
  "sync_loop silent_env 0 (take 2 [entry 1000 2000 [], entry 3000 4000 []])
       (initial_state (initial_stats 2))
     = Inr \<lparr>audio_segments = [zeros 24000, zeros 24000, zeros 24000, zeros 24000],
            current_total_samples = 96000, stats = (initial_stats 2)\<lparr>stat_empty := 2\<rparr>\<rparr>
   \<and> (\<exists>sj. sync_loop silent_env 0 (take 1 [entry 1000 2000 [], entry 3000 4000 []])
              (initial_state (initial_stats 2)) = Inr sj
         \<and> current_head_sec sj \<le> 4)"
proof -
  let ?sk = "\<lparr>audio_segments = [zeros 24000, zeros 24000, zeros 24000, zeros 24000],
            current_total_samples = 96000, stats = (initial_stats 2)\<lparr>stat_empty := 2\<rparr>\<rparr>"
  have run: "sync_loop silent_env 0 (take 2 [entry 1000 2000 [], entry 3000 4000 []])
       (initial_state (initial_stats 2)) = Inr ?sk"
    by (simp add: sync_eval text_eval)
  have "current_head_sec ?sk = 4"
    by (simp add: current_head_sec_def SAMPLE_RATE_def)
  with clock_monotone_exact [OF run, of 1 0 0] run show ?thesis
    by auto
qed




text \<open>
  Claim C10, as amended. When the clip fails to load, \<^verbatim>\<open>adjust_audio_length\<close> returns the
  empty waveform whatever the desired duration. In a run in which \<^verbatim>\<open>generation_errors\<close> was
  assigned and records no failure for the entry, an entry with text whose clip cannot be
  loaded gets, after its pre-gap handling, a chunk of zero samples, and the clock stays
  where the pre-gap handling left it; no exception is raised.
\<close>

theorem load_failure_zero_chunk:
  assumes "load_raw env i = None" and "clean_text sub \<noteq> []"
    and "generation_errors env = Some ge" and "\<not> generation_failed ge i"
  shows "adjust_audio_length (load_raw env i) D sr msf stretch = Inr []
       \<and> (\<exists>st1 st'. pre_gap (time_str_to_seconds (sub_start sub)) st = Inr st1
             \<and> process_sub env i sub st = Inr st'
             \<and> audio_segments st' = audio_segments st1 @ [[]]
             \<and> current_total_samples st' = current_total_samples st1
             \<and> current_head_sec st' = current_head_sec st1)"
proof -
  have fit: "adjust_audio_length (load_raw env i) D sr msf stretch = Inr []" for D sr msf stretch
    using assms(1) by (simp add: adjust_audio_length_def zeros_def)
  obtain st1 where st1: "pre_gap (time_str_to_seconds (sub_start sub)) st = Inr st1"
    using pre_gap_total by blast
  define st' where "st' = (if time_str_to_seconds (sub_end sub) - current_head_sec st1 < MIN_SEGMENT_DURATION
     then append_chunk [] (st1\<lparr>stats := (stats st1)\<lparr>stat_late_starts := stat_late_starts (stats st1) + 1\<rparr>\<rparr>)
     else append_chunk [] st1)"
  have "fit_and_append env i (time_str_to_seconds (sub_end sub)) st1 = Inr st'"
    by (simp add: fit_and_append_def Let_def fit st'_def)
  then have run: "process_sub env i sub st = Inr st'"
    using assms(2-4) st1 by (simp add: process_sub_def Let_def)
  have "audio_segments st' = audio_segments st1 @ [[]]"
    and "current_total_samples st' = current_total_samples st1"
    by (simp_all add: st'_def append_chunk_def)
  then show ?thesis
    using fit st1 run by (auto simp: current_head_sec_def)
qed

theorem load_failure_zero_chunk_witness:
  "load_raw unreadable_env 0 = None \<and> clean_text (entry 0 2000 ''Hello'') \<noteq> []
   \<and> adjust_audio_length (load_raw unreadable_env 0) 2 SAMPLE_RATE (3 / 2) stretch_same = Inr []
   \<and> (\<exists>st1 st'. pre_gap (time_str_to_seconds (sub_start (entry 0 2000 ''Hello'')))
                   (initial_state (initial_stats 1)) = Inr st1
         \<and> process_sub unreadable_env 0 (entry 0 2000 ''Hello'') (initial_state (initial_stats 1)) = Inr st'
         \<and> audio_segments st' = audio_segments st1 @ [[]]
         \<and> current_total_samples st' = current_total_samples st1
         \<and> current_head_sec st' = current_head_sec st1)"
proof -
  have a: "load_raw unreadable_env 0 = None" by (simp add: unreadable_env_def)
  have b: "clean_text (entry 0 2000 ''Hello'') \<noteq> []" by (simp add: text_eval)
  have c: "generation_errors unreadable_env = Some Map.empty" by (simp add: unreadable_env_def)
  have d: "\<not> generation_failed Map.empty 0" by (simp add: generation_failed_def)
  from load_failure_zero_chunk [OF a b c d, of 2 SAMPLE_RATE "3 / 2" stretch_same
      "initial_state (initial_stats 1)"] a b
  show ?thesis by simp
qed

section \<open>Exceptions that escape\<close>

text \<open>
  The theorems above speak of runs that complete. These are the branches on which the
  modelled code raises instead: the fit of an empty clip divides by zero (line 294), the
  silence for a failed generation has a negative size when the entry ends before it
  starts (line 600), and \<^verbatim>\<open>generation_errors\<close> is read unassigned when nothing was scheduled
  and an entry has text (line 596).
\<close>

lemma empty_clip_raises:
  "0 < D \<Longrightarrow> sr \<noteq> 0 \<Longrightarrow> adjust_audio_length (Some []) D sr msf stretch = Inl ZeroDivisionError"
  by (simp add: adjust_audio_length_def)

lemma negative_span_raises:
  assumes "clean_text sub \<noteq> []" and "generation_errors env = Some ge"
    and "generation_failed ge i"
    and "time_str_to_seconds (sub_end sub) + 1 / 1000 \<le> time_str_to_seconds (sub_start sub)"
  shows "process_sub env i sub st = Inl ValueError"
proof -
  obtain sg where sg: "pre_gap (time_str_to_seconds (sub_start sub)) st = Inr sg"
    using pre_gap_total by blast
  let ?x = "(time_str_to_seconds (sub_end sub) - time_str_to_seconds (sub_start sub))
              * rat_of_nat SAMPLE_RATE"
  have "?x \<le> - 24" using assms(4) by (simp add: SAMPLE_RATE_def)
  then have "\<lceil>?x\<rceil> \<le> - 24" by (simp add: ceiling_le_iff)
  moreover have "?x < 0" using \<open>?x \<le> - 24\<close> by simp
  ultimately have "py_int ?x < 0" by (simp add: py_int_def)
  then show ?thesis
    using assms(1-3) sg by (simp add: process_sub_def Let_def append_silence_def np_zeros_def)
qed

lemma unassigned_generation_errors:
  assumes "clean_text sub \<noteq> []" and "generation_errors env = None"
  shows "process_sub env i sub st = Inl UnboundLocalError"
proof -
  obtain sg where "pre_gap (time_str_to_seconds (sub_start sub)) st = Inr sg"
    using pre_gap_total by blast
  then show ?thesis using assms by (simp add: process_sub_def Let_def)
qed

section \<open>Properties of speech generation\<close>

lemma attempt_loop_exhausted:
  assumes "\<forall>k\<le>n. \<exists>e. attempt k = Inl e" and "attempt n = Inl e" and "a \<le> n"
  shows "attempt_loop attempt (int n) [a..<Suc n] = Inl e"
  using assms(3)
proof (induction "n - a" arbitrary: a)
  case 0
  then have "a = n" by simp
  then show ?case using assms(2) by simp
next
  case (Suc d)
  then have lt: "a < n" by simp
  then have "[a..<Suc n] = a # [Suc a..<Suc n]"
    by (simp add: upt_conv_Cons)
  moreover obtain e' where "attempt a = Inl e'"
    using assms(1) lt by (meson less_imp_le)
  moreover have "attempt_loop attempt (int n) [Suc a..<Suc n] = Inl e"
    using Suc lt by simp
  ultimately show ?case using lt by simp
qed

lemma generate_audio_segment_exhausted:
  assumes "0 \<le> retries" and "\<forall>k\<le>nat retries. \<exists>e. tts text path k = Inl e"
    and "tts text path (nat retries) = Inl e"
  shows "generate_audio_segment tts text path retries = Inl e"
proof -
  have "nat (retries + 1) = Suc (nat retries)" using assms(1) by simp
  moreover have "int (nat retries) = retries" using assms(1) by simp
  ultimately show ?thesis
    using attempt_loop_exhausted [of "nat retries" "tts text path" e 0] assms(2,3)
    by (simp add: generate_audio_segment_def)
qed

declare generate_batches.simps [simp del]

lemma generate_batches_fold:
  "0 < batch_size \<Longrightarrow>
     generate_batches tts retries batch_size segments_info acc
       = fold (run_one tts retries) segments_info acc"
proof (induction tts retries batch_size segments_info acc rule: generate_batches.induct)
  case (1 tts retries batch_size segments_info acc)
  show ?case
  proof (cases "segments_info = []")
    case True
    then show ?thesis by (simp add: generate_batches.simps)
  next
    case False
    have "fold (run_one tts retries) (take batch_size segments_info @ drop batch_size segments_info) acc
        = fold (run_one tts retries) (drop batch_size segments_info)
            (fold (run_one tts retries) (take batch_size segments_info) acc)"
      by (simp only: fold_append comp_apply)
    then have "fold (run_one tts retries) segments_info acc
        = fold (run_one tts retries) (drop batch_size segments_info)
            (run_batch tts retries (take batch_size segments_info) acc)"
      by (simp add: run_batch_def)
    moreover have "generate_batches tts retries batch_size segments_info acc
        = generate_batches tts retries batch_size (drop batch_size segments_info)
            (run_batch tts retries (take batch_size segments_info) acc)"
      using False "1.prems" by (subst generate_batches.simps) simp
    ultimately show ?thesis
      using "1.IH" False "1.prems" by simp
  qed
qed






lemma always_fails_segment:
  "0 \<le> retries \<Longrightarrow> generate_audio_segment always_fails t p retries = Inl ''timeout''"
  by (rule generate_audio_segment_exhausted) (simp_all add: always_fails_def)

lemma failing_generation:
  "generation_phase failing_world default_options
     \<lparr>pass_stats = s, segments_to_generate = [(''Hello'', ''hello'', 0)],
      text_to_cache = m, files = empty_files\<rparr>
   = Inr (Some [0 \<mapsto> Some ''timeout''], s\<lparr>stat_failed := stat_failed s + 1\<rparr>, empty_files)"
proof -
  have seg: "generate_audio_segment always_fails t p 10 = Inl ''timeout''" for t p
    by (rule always_fails_segment) simp
  show ?thesis
    by (simp add: generation_phase_def generate_audio_batch_def generate_batches_fold
        run_one_def generate_one_def seg settle_segment_def failing_world_def plain_world_def
        default_options_def)
qed


text \<open>
  Claim C10 as stated fails: an entry whose generation failed has no clip, and the guard of
  line 596 gives it a second of silence, not a chunk of zero samples.
\<close>

theorem failed_clip_counterexample:
  "srt_to_audio_numpy failing_world default_options [entry 0 1000 ''Hello''] empty_files
     = Inr (Some (\<lparr>audio_segments = [zeros 24000], current_total_samples = 24000,
                    stats = (initial_stats 1)\<lparr>stat_failed := 1\<rparr>\<rparr>, empty_files))
   \<and> raw_files empty_files 0 = None
   \<and> length (zeros 24000) \<noteq> 0"
proof -
  let ?subs = "[entry 0 1000 ''Hello'']"
  have collect: "collect_loop failing_world default_options 0 ?subs (initial_pass_state 1 empty_files)
     = \<lparr>pass_stats = initial_stats 1, segments_to_generate = [(''Hello'', ''hello'', 0)],
        text_to_cache = [''Hello'' \<mapsto> ''hello''], files = empty_files\<rparr>"
    by (simp add: collect_sub_def schedule_def initial_pass_state_def empty_files_def
        failing_world_def plain_world_def default_options_def exists_nonempty_def lower_def
        lower_char_def text_eval Let_def)
  have copied: "propagate_loop failing_world 0 ?subs empty_files = empty_files"
    by (simp add: propagate_sub_def empty_files_def exists_nonempty_def text_eval Let_def
        failing_world_def plain_world_def lower_def lower_char_def)
  have sync: "synchronize (make_sync_env failing_world default_options
                 (Some [0 \<mapsto> Some ''timeout'']) empty_files)
               (opt_final_target_sec default_options) ?subs
               (initial_state ((initial_stats 1)\<lparr>stat_failed := stat_failed (initial_stats 1) + 1\<rparr>))
     = Inr \<lparr>audio_segments = [zeros 24000], current_total_samples = 24000,
            stats = (initial_stats 1)\<lparr>stat_failed := 1\<rparr>\<rparr>"
    by (simp add: sync_eval text_eval make_sync_env_def default_options_def empty_files_def
        generation_failed_def)
  have run: "srt_to_audio_numpy failing_world default_options ?subs empty_files
     = Inr (Some (\<lparr>audio_segments = [zeros 24000], current_total_samples = 24000,
                    stats = (initial_stats 1)\<lparr>stat_failed := 1\<rparr>\<rparr>, empty_files))"
  proof -
    have len: "length ?subs = 1" and ne: "(?subs = []) = False" by simp_all
    note gen = failing_generation [of "initial_stats 1" "[''Hello'' \<mapsto> ''hello'']"]
    show ?thesis
      by (simp only: srt_to_audio_numpy_def len ne if_False collect gen copied sync
          sum.case prod.case Let_def)
  qed
  then show ?thesis
    by (simp add: empty_files_def length_zeros)
qed

section \<open>Properties of the first pass and of the copy pass\<close>

lemma copy2_Some:
  "copy2 w site p i fs = Some fs' \<longleftrightarrow>
     (\<exists>f. cache_files fs p = Some f \<and> \<not> copy_raises w site i
        \<and> fs' = fs\<lparr>raw_files := (raw_files fs)(i \<mapsto> f)\<rparr>)"
  by (auto simp: copy2_def split: option.splits)

lemma copy2_None:
  "copy2 w site p i fs = None \<longleftrightarrow> cache_files fs p = None \<or> copy_raises w site i"
  by (auto simp: copy2_def split: option.splits)

lemma exists_nonempty_Some: "exists_nonempty x \<Longrightarrow> \<exists>f. x = Some f"
  by (cases x) (simp_all add: exists_nonempty_def)

lemma collect_sub_needed:
  "needs_generation w cfg (files ps) i sub \<Longrightarrow>
     collect_sub w cfg i sub ps = schedule (clean_text sub) (cache_key w sub) i ps"
  by (auto simp: collect_sub_def needs_generation_def cache_key_def Let_def copy2_None copy2_Some
      split: option.splits dest: exists_nonempty_Some)

lemma collect_sub_not_needed:
  assumes "\<not> needs_generation w cfg (files ps) i sub"
  shows "segments_to_generate (collect_sub w cfg i sub ps) = segments_to_generate ps
       \<and> text_to_cache (collect_sub w cfg i sub ps) = text_to_cache ps"
  using assms
  by (auto simp: collect_sub_def needs_generation_def cache_key_def Let_def copy2_None copy2_Some
      split: option.splits dest: exists_nonempty_Some)

lemma schedule_files [simp]: "files (schedule t p i ps) = files ps"
  by (simp add: schedule_def)

lemma collect_sub_cache [simp]:
  "cache_files (files (collect_sub w cfg i sub ps)) = cache_files (files ps)"
  by (auto simp: collect_sub_def Let_def copy2_Some split: option.splits)

lemma collect_sub_raw_other:
  "j \<noteq> i \<Longrightarrow> raw_files (files (collect_sub w cfg i sub ps)) j = raw_files (files ps) j"
  by (auto simp: collect_sub_def Let_def copy2_Some split: option.splits)

lemma needs_generation_agree:
  "cache_files fs = cache_files fs0 \<Longrightarrow> raw_files fs i = raw_files fs0 i \<Longrightarrow>
     needs_generation w cfg fs i sub = needs_generation w cfg fs0 i sub"
  by (simp add: needs_generation_def)

lemma collect_loop_plan:
  assumes "cache_files (files ps) = cache_files fs0"
    and "\<forall>j\<ge>i. raw_files (files ps) j = raw_files fs0 j"
    and "dom (text_to_cache ps) = set seen"
  shows "segments_to_generate (collect_loop w cfg i subs ps)
           = segments_to_generate ps @ first_per_text w cfg fs0 i subs seen"
  using assms
proof (induction subs arbitrary: i ps seen)
  case Nil
  then show ?case by simp
next
  case (Cons sub subs)
  let ?ps = "collect_sub w cfg i sub ps"
  have ng: "needs_generation w cfg (files ps) i sub = needs_generation w cfg fs0 i sub"
    using Cons.prems(1,2) by (intro needs_generation_agree) simp_all
  have c: "cache_files (files ?ps) = cache_files fs0"
    using Cons.prems(1) by simp
  have r: "\<forall>j\<ge>Suc i. raw_files (files ?ps) j = raw_files fs0 j"
    using Cons.prems(2) by (simp add: collect_sub_raw_other)
  show ?case
  proof (cases "needs_generation w cfg fs0 i sub \<and> clean_text sub \<notin> set seen")
    case True
    then have "text_to_cache ps (clean_text sub) = None"
      using Cons.prems(3) by (auto simp: dom_def)
    then have ps': "?ps = ps\<lparr>segments_to_generate := segments_to_generate ps
                 @ [(clean_text sub, cache_key w sub, i)],
              text_to_cache := (text_to_cache ps)(clean_text sub \<mapsto> cache_key w sub)\<rparr>"
      using True ng by (simp add: collect_sub_needed schedule_def)
    then have d: "dom (text_to_cache ?ps) = set (clean_text sub # seen)"
      using Cons.prems(3) by simp
    show ?thesis
      using Cons.IH [OF c r d] True ps' by simp
  next
    case False
    have same: "segments_to_generate ?ps = segments_to_generate ps
        \<and> text_to_cache ?ps = text_to_cache ps"
    proof (cases "needs_generation w cfg fs0 i sub")
      case True
      with False have "text_to_cache ps (clean_text sub) \<noteq> None"
        using Cons.prems(3) by (auto simp: dom_def)
      then show ?thesis using True ng by (simp add: collect_sub_needed schedule_def)
    next
      case False
      then show ?thesis using ng collect_sub_not_needed by simp
    qed
    then have d: "dom (text_to_cache ?ps) = set seen"
      using Cons.prems(3) by simp
    have "first_per_text w cfg fs0 i (sub # subs) seen = first_per_text w cfg fs0 (Suc i) subs seen"
      using False by auto
    then show ?thesis
      using Cons.IH [OF c r d] same by simp
  qed
qed

lemma first_per_text_texts:
  "set (map fst (first_per_text w cfg fs i subs seen)) = set (needed_texts w cfg fs i subs) - set seen"
  by (induction subs arbitrary: i seen) auto

lemma first_per_text_unseen:
  assumes "seg \<in> set (first_per_text w cfg fs i subs seen)"
  shows "fst seg \<notin> set seen"
proof -
  from assms have "fst seg \<in> set (map fst (first_per_text w cfg fs i subs seen))"
    by simp
  then show ?thesis by (simp only: first_per_text_texts) simp
qed

lemma first_per_text_distinct:
  "distinct (map fst (first_per_text w cfg fs i subs seen))"
proof (induction subs arbitrary: i seen)
  case Nil
  then show ?case by simp
next
  case (Cons sub subs)
  have "clean_text sub \<notin> fst ` set (first_per_text w cfg fs (Suc i) subs (clean_text sub # seen))"
  proof
    assume "clean_text sub \<in> fst ` set (first_per_text w cfg fs (Suc i) subs (clean_text sub # seen))"
    then obtain seg where "seg \<in> set (first_per_text w cfg fs (Suc i) subs (clean_text sub # seen))"
      and "fst seg = clean_text sub" by auto
    then show False using first_per_text_unseen by fastforce
  qed
  then show ?case using Cons by simp
qed

lemma first_per_text_length:
  "length (first_per_text w cfg fs i subs seen) = card (set (needed_texts w cfg fs i subs) - set seen)"
proof -
  have "length (first_per_text w cfg fs i subs seen)
      = length (map fst (first_per_text w cfg fs i subs seen))" by simp
  also have "\<dots> = card (set (map fst (first_per_text w cfg fs i subs seen)))"
    using first_per_text_distinct by (rule distinct_card [symmetric])
  finally show ?thesis by (simp only: first_per_text_texts)
qed

lemma first_per_text_indices:
  "seg \<in> set (first_per_text w cfg fs i subs seen) \<Longrightarrow> i \<le> snd (snd seg)"
proof (induction subs arbitrary: i seen)
  case Nil
  then show ?case by simp
next
  case (Cons sub subs)
  let ?seen = "if needs_generation w cfg fs i sub \<and> clean_text sub \<notin> set seen
               then clean_text sub # seen else seen"
  from Cons.prems consider "snd (snd seg) = i"
    | "seg \<in> set (first_per_text w cfg fs (Suc i) subs ?seen)"
    by (auto split: if_splits)
  then show ?case
  proof cases
    case 1
    then show ?thesis by simp
  next
    case 2
    then have "Suc i \<le> snd (snd seg)" by (rule Cons.IH)
    then show ?thesis by simp
  qed
qed

lemma first_per_text_distinct_indices:
  "distinct (map (\<lambda>seg. snd (snd seg)) (first_per_text w cfg fs i subs seen))"
proof (induction subs arbitrary: i seen)
  case Nil
  then show ?case by simp
next
  case (Cons sub subs)
  have "i \<notin> (\<lambda>seg. snd (snd seg)) ` set (first_per_text w cfg fs (Suc i) subs s)" for s
    using first_per_text_indices [of _ w cfg fs "Suc i" subs s] by fastforce
  then show ?case using Cons by simp
qed

lemma first_per_text_covers:
  assumes "k < length subs" and "needs_generation w cfg fs (i + k) (subs ! k)"
    and "clean_text (subs ! k) \<notin> set seen"
  shows "\<exists>j\<le>k. (clean_text (subs ! k), cache_key w (subs ! k), i + j)
                  \<in> set (first_per_text w cfg fs i subs seen)
               \<and> clean_text (subs ! j) = clean_text (subs ! k)"
  using assms
proof (induction subs arbitrary: i seen k)
  case Nil
  then show ?case by simp
next
  case (Cons sub subs)
  show ?case
  proof (cases k)
    case 0
    with Cons.prems show ?thesis by (intro exI [of _ 0]) simp
  next
    case (Suc k')
    show ?thesis
    proof (cases "clean_text sub = clean_text ((sub # subs) ! k)")
      case True
      show ?thesis
      proof (cases "needs_generation w cfg fs i sub")
        case ng: True
        have "cache_key w sub = cache_key w ((sub # subs) ! k)"
          using True by (simp add: cache_key_def)
        then show ?thesis using True ng Cons.prems(3)
          by (intro exI [of _ 0]) simp
      next
        case False
        from Cons.prems Suc have "k' < length subs"
          "needs_generation w cfg fs (Suc i + k') (subs ! k')"
          "clean_text (subs ! k') \<notin> set seen" by simp_all
        from Cons.IH [OF this] obtain j where "j \<le> k'"
          "(clean_text (subs ! k'), cache_key w (subs ! k'), Suc i + j)
             \<in> set (first_per_text w cfg fs (Suc i) subs seen)"
          "clean_text (subs ! j) = clean_text (subs ! k')" by blast
        then show ?thesis using False Suc
          by (intro exI [of _ "Suc j"]) simp
      qed
    next
      case False
      let ?seen = "if needs_generation w cfg fs i sub \<and> clean_text sub \<notin> set seen
                   then clean_text sub # seen else seen"
      from Cons.prems Suc False have "k' < length subs"
          "needs_generation w cfg fs (Suc i + k') (subs ! k')"
          "clean_text (subs ! k') \<notin> set ?seen" by auto
      from Cons.IH [OF this] obtain j where "j \<le> k'"
          "(clean_text (subs ! k'), cache_key w (subs ! k'), Suc i + j)
             \<in> set (first_per_text w cfg fs (Suc i) subs ?seen)"
          "clean_text (subs ! j) = clean_text (subs ! k')" by blast
      then show ?thesis using Suc
        by (intro exI [of _ "Suc j"]) auto
    qed
  qed
qed

lemma propagate_sub_cache [simp]:
  "cache_files (propagate_sub w i sub fs) = cache_files fs"
  by (auto simp: propagate_sub_def Let_def copy2_Some split: option.splits)

lemma propagate_sub_raw_other:
  "j \<noteq> i \<Longrightarrow> raw_files (propagate_sub w i sub fs) j = raw_files fs j"
  by (auto simp: propagate_sub_def Let_def copy2_Some split: option.splits)

lemma propagate_loop_cache [simp]:
  "cache_files (propagate_loop w a subs fs) = cache_files fs"
  by (induction subs arbitrary: a fs) simp_all

lemma propagate_loop_raw_before:
  "j < a \<Longrightarrow> raw_files (propagate_loop w a subs fs) j = raw_files fs j"
  by (induction subs arbitrary: a fs) (simp_all add: propagate_sub_raw_other)

lemma propagate_sub_hit:
  assumes "clean_text sub \<noteq> []" and "\<not> exists_nonempty (raw_files fs i)"
    and "cache_files fs (cache_key w sub) = Some f" and "\<not> copy_raises w 3 i"
  shows "raw_files (propagate_sub w i sub fs) i = Some f"
  using assms by (simp add: propagate_sub_def Let_def cache_key_def copy2_def)

lemma propagate_loop_hit:
  assumes "k < length subs" and "clean_text (subs ! k) \<noteq> []"
    and "\<not> exists_nonempty (raw_files fs (a + k))"
    and "cache_files fs (cache_key w (subs ! k)) = Some f" and "\<not> copy_raises w 3 (a + k)"
  shows "raw_files (propagate_loop w a subs fs) (a + k) = Some f"
  using assms
proof (induction subs arbitrary: a fs k)
  case Nil
  then show ?case by simp
next
  case (Cons sub subs)
  show ?case
  proof (cases k)
    case 0
    with Cons.prems have "raw_files (propagate_sub w a sub fs) a = Some f"
      by (simp add: propagate_sub_hit)
    then show ?thesis using 0 by (simp add: propagate_loop_raw_before)
  next
    case (Suc k')
    let ?fs = "propagate_sub w a sub fs"
    have "raw_files ?fs (Suc a + k') = raw_files fs (a + k)"
      using Suc by (simp add: propagate_sub_raw_other)
    with Cons.prems Suc have "k' < length subs" "clean_text (subs ! k') \<noteq> []"
      "\<not> exists_nonempty (raw_files ?fs (Suc a + k'))"
      "cache_files ?fs (cache_key w (subs ! k')) = Some f" "\<not> copy_raises w 3 (Suc a + k')"
      by simp_all
    from Cons.IH [OF this] show ?thesis using Suc by simp
  qed
qed

lemma initial_pass_state_sel [simp]:
  "segments_to_generate (initial_pass_state n fs) = []"
  "text_to_cache (initial_pass_state n fs) = Map.empty"
  "files (initial_pass_state n fs) = fs"
  by (simp_all add: initial_pass_state_def)

lemma collect_loop_first_per_text:
  "segments_to_generate (collect_loop w cfg 0 subs (initial_pass_state n fs0))
     = first_per_text w cfg fs0 0 subs []"
  using collect_loop_plan [of "initial_pass_state n fs0" fs0 0 "[]" w cfg subs] by simp

lemma first_per_text_normalized:
  assumes "inj_on lower (set (needed_texts w cfg fs i subs) \<union> set seen)"
  shows "first_per_text w cfg fs i subs seen
           = first_per_normalized w cfg fs i subs (map lower seen)"
  using assms
proof (induction subs arbitrary: i seen)
  case Nil
  then show ?case by simp
next
  case (Cons sub subs)
  show ?case
  proof (cases "needs_generation w cfg fs i sub")
    case False
    then have "inj_on lower (set (needed_texts w cfg fs (Suc i) subs) \<union> set seen)"
      using Cons.prems by simp
    from Cons.IH [OF this] show ?thesis using False by simp
  next
    case True
    let ?t = "clean_text sub"
    have inj: "inj_on lower (insert ?t (set (needed_texts w cfg fs (Suc i) subs) \<union> set seen))"
      using Cons.prems True by simp
    have mem: "lower ?t \<in> lower ` set seen \<longleftrightarrow> ?t \<in> set seen"
    proof
      assume "lower ?t \<in> lower ` set seen"
      then obtain u where u: "u \<in> set seen" "lower ?t = lower u" by auto
      then have "?t = u" using inj by (auto dest: inj_onD)
      then show "?t \<in> set seen" using u by simp
    qed auto
    have i1: "inj_on lower (set (needed_texts w cfg fs (Suc i) subs) \<union> set seen)"
      using inj by (rule inj_on_subset) auto
    have i2: "inj_on lower (set (needed_texts w cfg fs (Suc i) subs) \<union> set (?t # seen))"
      using inj by (rule inj_on_subset) auto
    show ?thesis
      using True mem Cons.IH [OF i1] Cons.IH [OF i2] by simp
  qed
qed

text \<open>
  Claim C5, as amended. Take a cue set in which no two texts that need generation differ
  only in letter case. Then the first pass schedules exactly the first entry of each
  normalized text among the entries that need generation, in entry order, each with the
  cache path of its text: the number of generation calls is the number of distinct
  normalized texts, where a text is normalized by replacing newlines with spaces, trimming
  and lowercasing. Inner whitespace is not collapsed. In the copy pass every entry with
  text and without a clip of its own receives the cached clip of its text's key, unless the
  copy raises; entries sharing a text share the key, and so receive the same clip.
\<close>

theorem one_call_per_text:
  assumes "inj_on lower (set (needed_texts w cfg fs0 0 subs))"
  shows "segments_to_generate (collect_loop w cfg 0 subs (initial_pass_state n fs0))
           = first_per_normalized w cfg fs0 0 subs []
       \<and> length (segments_to_generate (collect_loop w cfg 0 subs (initial_pass_state n fs0)))
           = card (lower ` set (needed_texts w cfg fs0 0 subs))
       \<and> (i < length subs \<and> clean_text (subs ! i) \<noteq> [] \<and> \<not> exists_nonempty (raw_files fs i)
            \<and> cache_files fs (cache_key w (subs ! i)) = Some f \<and> \<not> copy_raises w 3 i \<longrightarrow>
            raw_files (propagate_loop w 0 subs fs) i = Some f)"
proof -
  have "inj_on lower (set (needed_texts w cfg fs0 0 subs) \<union> set [])"
    using assms by simp
  from first_per_text_normalized [OF this]
  have plan: "segments_to_generate (collect_loop w cfg 0 subs (initial_pass_state n fs0))
           = first_per_normalized w cfg fs0 0 subs []"
    by (simp add: collect_loop_first_per_text)
  have "length (first_per_text w cfg fs0 0 subs []) = card (set (needed_texts w cfg fs0 0 subs))"
    by (simp add: first_per_text_length)
  then have len: "length (segments_to_generate (collect_loop w cfg 0 subs (initial_pass_state n fs0)))
           = card (lower ` set (needed_texts w cfg fs0 0 subs))"
    using assms by (simp add: collect_loop_first_per_text card_image)
  have "i < length subs \<and> clean_text (subs ! i) \<noteq> [] \<and> \<not> exists_nonempty (raw_files fs i)
        \<and> cache_files fs (cache_key w (subs ! i)) = Some f \<and> \<not> copy_raises w 3 i \<longrightarrow>
        raw_files (propagate_loop w 0 subs fs) i = Some f"
    using propagate_loop_hit [of i subs fs 0 w f] by simp
  with plan len show ?thesis by (intro conjI)
qed

lemma cache_key_plain: "cache_key plain_world sub = lower (clean_text sub)"
  by (simp add: cache_key_def plain_world_def)

lemma needs_plain:
  "needs_generation plain_world default_options empty_files i sub \<longleftrightarrow> clean_text sub \<noteq> []"
  by (simp add: needs_generation_def default_options_def empty_files_def exists_nonempty_def)

theorem one_call_per_text_witness:
  "segments_to_generate (collect_loop plain_world default_options 0 repeated
       (initial_pass_state 3 empty_files))
     = [(''Hello'', ''hello'', 0), (''Hi'', ''hi'', 2)]
   \<and> card (lower ` set (needed_texts plain_world default_options empty_files 0 repeated)) = 2
   \<and> raw_files (propagate_loop plain_world 0 repeated scenario_files) 1 = Some ''Hello''"
proof -
  have texts: "needed_texts plain_world default_options empty_files 0 repeated
      = [''Hello'', ''Hello'', ''Hi'']"
    by (simp add: repeated_def needs_plain text_eval)
  have plan: "first_per_normalized plain_world default_options empty_files 0 repeated []
      = [(''Hello'', ''hello'', 0), (''Hi'', ''hi'', 2)]"
    by (simp add: repeated_def needs_plain cache_key_plain text_eval lower_def
        lower_char_def numeral_2_eq_2)
  have inj: "inj_on lower (set (needed_texts plain_world default_options empty_files 0 repeated))"
    by (simp add: texts lower_def lower_char_def)
  have hit: "1 < length repeated \<and> clean_text (repeated ! 1) \<noteq> []
      \<and> \<not> exists_nonempty (raw_files scenario_files 1)
      \<and> cache_files scenario_files (cache_key plain_world (repeated ! 1)) = Some ''Hello''
      \<and> \<not> copy_raises plain_world 3 1"
  proof -
    have "copy_raises plain_world 3 1 = False" by (simp add: plain_world_def)
    then show ?thesis
      by (simp add: repeated_def cache_key_plain text_eval scenario_files_def
          exists_nonempty_def lower_def lower_char_def)
  qed
  note inst = one_call_per_text [OF inj, of 3 1 scenario_files "''Hello''"]
  from inst plan have s1: "segments_to_generate (collect_loop plain_world default_options 0 repeated
       (initial_pass_state 3 empty_files)) = [(''Hello'', ''hello'', 0), (''Hi'', ''hi'', 2)]"
    by simp
  from inst have s2: "length (segments_to_generate (collect_loop plain_world default_options 0
       repeated (initial_pass_state 3 empty_files)))
     = card (lower ` set (needed_texts plain_world default_options empty_files 0 repeated))"
    by blast
  from inst hit have s3: "raw_files (propagate_loop plain_world 0 repeated scenario_files) 1
     = Some ''Hello''"
    by blast
  from s1 s2 have "card (lower ` set (needed_texts plain_world default_options empty_files 0
       repeated)) = 2"
    by simp
  with s1 s3 show ?thesis by simp
qed

text \<open>
  Claim C5 as stated fails: two entries whose texts differ only in the number of spaces
  between two words have one whitespace-collapsed key, and both are scheduled.
\<close>

theorem one_call_per_text_counterexample:
  "segments_to_generate (collect_loop plain_world default_options 0
       [entry 0 1000 ''a  b'', entry 1000 2000 ''a b''] (initial_pass_state 2 empty_files))
     = [(''a  b'', ''a  b'', 0), (''a b'', ''a b'', 1)]
   \<and> spec_cache_key ''a  b'' = spec_cache_key ''a b''
   \<and> length [(''a  b'', ''a  b'', 0::nat), (''a b'', ''a b'', 1)] \<noteq> card (spec_cache_key ` {''a  b'', ''a b''})"
proof -
  have k: "spec_cache_key ''a  b'' = ''a b''" "spec_cache_key ''a b'' = ''a b''"
    by (simp_all add: spec_cache_key_def strip_def is_space_def lower_def lower_char_def)
  have "collect_loop plain_world default_options 0
       [entry 0 1000 ''a  b'', entry 1000 2000 ''a b''] (initial_pass_state 2 empty_files)
     = \<lparr>pass_stats = initial_stats 2,
        segments_to_generate = [(''a  b'', ''a  b'', 0), (''a b'', ''a b'', 1)],
        text_to_cache = [''a  b'' \<mapsto> ''a  b'', ''a b'' \<mapsto> ''a b''],
        files = empty_files\<rparr>"
    by (simp add: collect_sub_def schedule_def initial_pass_state_def empty_files_def
        plain_world_def default_options_def exists_nonempty_def lower_def lower_char_def
        initial_stats_def text_eval Let_def)
  then show ?thesis by (simp add: k)
qed

text \<open>
  Claim C6. Let an entry with text, not resumed, have a cache hit whose copy to the
  per-entry location raises. Then a generation for its text and cache path is scheduled:
  for the entry itself, or for an earlier entry with the same text when that text was
  already seen. The first pass has no failing branch.
\<close>

theorem copy_failure_schedules:
  assumes "i < length subs" and "clean_text (subs ! i) \<noteq> []"
    and "\<not> (opt_resume cfg \<and> exists_nonempty (raw_files fs0 i))"
    and "exists_nonempty (cache_files fs0 (cache_key w (subs ! i)))"
    and "copy_raises w 1 i"
  shows "\<exists>j\<le>i. (clean_text (subs ! i), cache_key w (subs ! i), j)
                  \<in> set (segments_to_generate (collect_loop w cfg 0 subs (initial_pass_state n fs0)))
               \<and> clean_text (subs ! j) = clean_text (subs ! i)"
proof -
  have "needs_generation w cfg fs0 (0 + i) (subs ! i)"
    using assms(2-5) by (simp add: needs_generation_def)
  moreover have "clean_text (subs ! i) \<notin> set []" by simp
  ultimately have "\<exists>j\<le>i. (clean_text (subs ! i), cache_key w (subs ! i), 0 + j)
                  \<in> set (first_per_text w cfg fs0 0 subs [])
               \<and> clean_text (subs ! j) = clean_text (subs ! i)"
    using assms(1) by (intro first_per_text_covers)
  then show ?thesis by (simp add: collect_loop_first_per_text)
qed

theorem copy_failure_schedules_witness:
  "segments_to_generate (collect_loop copy_failing_world default_options 0
       [entry 0 1000 ''Hello'', entry 1000 2000 ''Hello''] (initial_pass_state 2 cached_files))
     = [(''Hello'', ''hello'', 0)]
   \<and> (\<exists>j\<le>1. (''Hello'', ''hello'', j)
          \<in> set (segments_to_generate (collect_loop copy_failing_world default_options 0
               [entry 0 1000 ''Hello'', entry 1000 2000 ''Hello''] (initial_pass_state 2 cached_files))))"
proof -
  let ?subs = "[entry 0 1000 ''Hello'', entry 1000 2000 ''Hello'']"
  have key: "cache_key copy_failing_world (?subs ! 1) = ''hello''"
    by (simp add: cache_key_def copy_failing_world_def plain_world_def text_eval lower_def
        lower_char_def)
  have t: "clean_text (?subs ! 1) = ''Hello''" by (simp add: text_eval)
  have a: "1 < length ?subs" by simp
  have b: "clean_text (?subs ! 1) \<noteq> []" unfolding t by simp
  have c: "\<not> (opt_resume default_options \<and> exists_nonempty (raw_files cached_files 1))"
    by (simp add: default_options_def)
  have d: "exists_nonempty (cache_files cached_files (cache_key copy_failing_world (?subs ! 1)))"
    unfolding key by (simp add: cached_files_def exists_nonempty_def)
  have e: "copy_raises copy_failing_world 1 1"
    by (simp add: copy_failing_world_def)
  have run: "segments_to_generate (collect_loop copy_failing_world default_options 0 ?subs
       (initial_pass_state 2 cached_files)) = [(''Hello'', ''hello'', 0)]"
    by (simp add: collect_sub_def schedule_def initial_pass_state_def cached_files_def
        copy_failing_world_def plain_world_def default_options_def exists_nonempty_def
        lower_def lower_char_def copy2_def text_eval Let_def)
  from copy_failure_schedules [OF a b c d e, of 2] run
  show ?thesis unfolding key t by simp
qed

section \<open>The end-to-end scenario\<close>

lemma generate_audio_segment_first:
  assumes "0 \<le> retries" and "tts text path 0 = Inr f"
  shows "generate_audio_segment tts text path retries = Inr (Some f)"
proof -
  have "[0..<nat (retries + 1)] = 0 # [Suc 0..<nat (retries + 1)]"
    using assms(1) by (simp add: upt_conv_Cons)
  then show ?thesis using assms(2) by (simp add: generate_audio_segment_def)
qed

lemma scenario_collect:
  "collect_loop plain_world default_options 0 scenario (initial_pass_state 3 empty_files)
     = \<lparr>pass_stats = (initial_stats 3)\<lparr>stat_empty := 1\<rparr>,
        segments_to_generate = [(''Hello'', ''hello'', 0), (''Hi'', ''hi'', 2)],
        text_to_cache = [''Hello'' \<mapsto> ''hello'', ''Hi'' \<mapsto> ''hi''],
        files = empty_files\<rparr>"
  by (simp add: scenario_def collect_sub_def schedule_def initial_pass_state_def empty_files_def
      plain_world_def default_options_def exists_nonempty_def lower_def lower_char_def
      initial_stats_def text_eval Let_def numeral_2_eq_2)

lemma scenario_generation:
  "generation_phase plain_world default_options
     \<lparr>pass_stats = (initial_stats 3)\<lparr>stat_empty := 1\<rparr>,
        segments_to_generate = [(''Hello'', ''hello'', 0), (''Hi'', ''hi'', 2)],
        text_to_cache = [''Hello'' \<mapsto> ''hello'', ''Hi'' \<mapsto> ''hi''],
        files = empty_files\<rparr>
   = Inr (Some [0 \<mapsto> None, 2 \<mapsto> None],
          (initial_stats 3)\<lparr>stat_empty := 1, stat_generated := 2\<rparr>,
          \<lparr>raw_files = [0 \<mapsto> ''Hello'', 2 \<mapsto> ''Hi''],
           cache_files = [''hello'' \<mapsto> ''Hello'', ''hi'' \<mapsto> ''Hi'']\<rparr>)"
proof -
  have seg: "generate_audio_segment speaks t p 10 = Inr (Some t)" for t p
    by (rule generate_audio_segment_first) (simp_all add: speaks_def)
  show ?thesis
    by (simp add: generation_phase_def generate_audio_batch_def generate_batches_fold
        run_one_def generate_one_def seg settle_segment_def copy2_def plain_world_def
        default_options_def empty_files_def initial_stats_def)
qed

lemma scenario_propagate:
  "propagate_loop plain_world 0 scenario scenario_files = scenario_files"
  by (simp add: scenario_def propagate_sub_def scenario_files_def exists_nonempty_def text_eval
      Let_def)

lemma scenario_fit:
  "0 < D \<Longrightarrow> adjust_audio_length (Some [0, 0, 0]) D SAMPLE_RATE (3 / 2) stretch_same
     = Inr (pad_or_crop [0, 0, 0] \<lfloor>D * rat_of_nat SAMPLE_RATE\<rfloor>)"
  by (simp add: adjust_loaded SAMPLE_RATE_def stretch_same_def)

lemma scenario_sync:
  "synchronize (make_sync_env plain_world default_options (Some [0 \<mapsto> None, 2 \<mapsto> None]) scenario_files)
      0 scenario (initial_state ((initial_stats 3)\<lparr>stat_empty := 1, stat_generated := 2\<rparr>))
   = Inr \<lparr>audio_segments = [[0, 0, 0] @ zeros 47997, zeros 48000, [0, 0, 0] @ zeros 1197],
          current_total_samples = 97200,
          stats = (initial_stats 3)\<lparr>stat_empty := 2, stat_generated := 2\<rparr>\<rparr>"
  by (simp add: scenario_def sync_eval text_eval make_sync_env_def plain_world_def
      default_options_def scenario_files_def generation_failed_def fit_and_append_def
      MIN_SEGMENT_DURATION_def adjust_audio_length_def clamp_ratio_def stretch_same_def
      pad_or_crop_def append_chunk_def length_zeros)

text \<open>
  Claim C8, evaluated on the three-entry scenario of the specification: the run completes,
  one entry has no text, and the final \<open>empty\<close> statistic is 2. Line 466 counts the entry in
  the first pass and line 582 counts it again in the synchronisation pass.
\<close>

theorem empty_counted_twice:
  "\<exists>st fs. srt_to_audio_numpy plain_world default_options scenario empty_files = Inr (Some (st, fs))
     \<and> stat_empty (stats st) = 2
     \<and> length (filter (\<lambda>sub. clean_text sub = []) scenario) = 1"
proof -
  have "srt_to_audio_numpy plain_world default_options scenario empty_files
     = Inr (Some (\<lparr>audio_segments = [[0, 0, 0] @ zeros 47997, zeros 48000, [0, 0, 0] @ zeros 1197],
          current_total_samples = 97200,
          stats = (initial_stats 3)\<lparr>stat_empty := 2, stat_generated := 2\<rparr>\<rparr>, scenario_files))"
  proof -
    have n: "length scenario = 3" "scenario \<noteq> []" by (simp_all add: scenario_def)
    show ?thesis
      unfolding srt_to_audio_numpy_def n scenario_collect scenario_generation
      using scenario_propagate scenario_sync
      by (simp add: scenario_files_def default_options_def n)
  qed
  moreover have "length (filter (\<lambda>sub. clean_text sub = []) scenario) = 1"
    by (simp add: scenario_def text_eval)
  ultimately show ?thesis by simp
qed

end
